theory Spec2Isabelle
  imports Complex_Main "HOL-Library.Sublist" "HOL-Library.List_Lexorder" "HOL-Library.Char_ord"
begin

section \<open>Characters and strings\<close>

text \<open>
  A JavaScript string is modelled as a \<^typ>\<open>string\<close>, a list of 8-bit characters (the UTF-8 bytes
  of the text). The character classes are the ones the regular expressions of the linter name:
  \<^verbatim>\<open>[A-Z]\<close>, \<^verbatim>\<open>[a-z]\<close> and \<^verbatim>\<open>[0-9]\<close>. \<^verbatim>\<open>toLowerCase\<close> is modelled on the ASCII letters; every
  other byte is left as it is. This is \<^verbatim>\<open>toLowerCase\<close> on every text whose letters outside ASCII
  have no lower-case form of their own; a name with such a letter (an accented capital, say) is
  outside the model.
\<close>

definition isUpper :: "char \<Rightarrow> bool" where
  "isUpper c \<longleftrightarrow> 65 \<le> (of_char c :: nat) \<and> (of_char c :: nat) \<le> 90"

definition isLower :: "char \<Rightarrow> bool" where
  "isLower c \<longleftrightarrow> 97 \<le> (of_char c :: nat) \<and> (of_char c :: nat) \<le> 122"

definition isDigit :: "char \<Rightarrow> bool" where
  "isDigit c \<longleftrightarrow> 48 \<le> (of_char c :: nat) \<and> (of_char c :: nat) \<le> 57"

definition toLowerChar :: "char \<Rightarrow> char" where
  "toLowerChar c = (if isUpper c then char_of (of_char c + (32::nat)) else c)"

definition toLowerCase :: "string \<Rightarrow> string" where
  "toLowerCase s = map toLowerChar s"

lemma upper_not_lower: "isUpper c \<Longrightarrow> \<not> isLower c"
  by (simp add: isUpper_def isLower_def)

lemma upper_not_digit: "isUpper c \<Longrightarrow> \<not> isDigit c"
  by (simp add: isUpper_def isDigit_def)

lemma underscore_class:
  "\<not> isUpper CHR ''_''" "\<not> isLower CHR ''_''" "\<not> isDigit CHR ''_''"
  by (simp_all add: isUpper_def isLower_def isDigit_def)

lemma toLowerChar_not_upper: "\<not> isUpper (toLowerChar c)"
  by (simp add: toLowerChar_def isUpper_def)

lemma toLowerChar_id: "\<not> isUpper c \<Longrightarrow> toLowerChar c = c"
  by (simp add: toLowerChar_def)

lemma toLowerCase_no_upper: "list_all (\<lambda>c. \<not> isUpper c) (toLowerCase s)"
  by (simp add: toLowerCase_def list_all_iff toLowerChar_not_upper)

lemma toLowerCase_fixed: "list_all (\<lambda>c. \<not> isUpper c) s \<Longrightarrow> toLowerCase s = s"
  by (induction s) (simp_all add: toLowerCase_def toLowerChar_id)

section \<open>Case normalizer (src/utils/normalizeName.ts)\<close>

text \<open>
  \<^verbatim>\<open>str.replace(/([a-z0-9])([A-Z])/g, '$1_$2')\<close>: the global replace scans from the left; a
  match takes two characters and the scan goes on after them.
\<close>

fun replaceLowerUpper :: "string \<Rightarrow> string" where
  "replaceLowerUpper (a # b # rest) =
     (if (isLower a \<or> isDigit a) \<and> isUpper b
      then a # CHR ''_'' # b # replaceLowerUpper rest
      else a # replaceLowerUpper (b # rest))"
| "replaceLowerUpper s = s"

text \<open>
  \<^verbatim>\<open>.replace(/([A-Z])([A-Z][a-z])/g, '$1_$2')\<close>: a match takes three characters and the scan
  goes on after them.
\<close>

fun replaceAcronym :: "string \<Rightarrow> string" where
  "replaceAcronym (a # b # c # rest) =
     (if isUpper a \<and> isUpper b \<and> isLower c
      then a # CHR ''_'' # b # c # replaceAcronym rest
      else a # replaceAcronym (b # c # rest))"
| "replaceAcronym s = s"

definition normalizeToSnakeCase :: "string \<Rightarrow> string" where
  "normalizeToSnakeCase str =
     (if str = [] then [] else toLowerCase (replaceAcronym (replaceLowerUpper str)))"

text \<open>
  The boundary rule in the words of the specification, read on the input string alone: after a
  character \<open>a\<close> followed by \<open>b\<close> an underscore is inserted when \<open>a\<close> is a lowercase letter or a
  digit and \<open>b\<close> is uppercase, or when \<open>a\<close> and \<open>b\<close> are uppercase and the character after \<open>b\<close> is
  lowercase.
\<close>

fun specBoundaries :: "string \<Rightarrow> string" where
  "specBoundaries (a # b # rest) =
     (if ((isLower a \<or> isDigit a) \<and> isUpper b)
         \<or> (isUpper a \<and> isUpper b \<and> (case rest of [] \<Rightarrow> False | c # _ \<Rightarrow> isLower c))
      then a # CHR ''_'' # specBoundaries (b # rest)
      else a # specBoundaries (b # rest))"
| "specBoundaries s = s"

definition specSnakeCase :: "string \<Rightarrow> string" where
  "specSnakeCase s = toLowerCase (specBoundaries s)"

subsection \<open>Each replace pass, one position at a time\<close>

fun stepLowerUpper :: "string \<Rightarrow> string" where
  "stepLowerUpper (a # b # rest) =
     (if (isLower a \<or> isDigit a) \<and> isUpper b
      then a # CHR ''_'' # stepLowerUpper (b # rest)
      else a # stepLowerUpper (b # rest))"
| "stepLowerUpper s = s"

fun stepAcronym :: "string \<Rightarrow> string" where
  "stepAcronym (a # b # c # rest) =
     (if isUpper a \<and> isUpper b \<and> isLower c
      then a # CHR ''_'' # stepAcronym (b # c # rest)
      else a # stepAcronym (b # c # rest))"
| "stepAcronym s = s"

lemma stepLowerUpper_upper:
  "isUpper b \<Longrightarrow> stepLowerUpper (b # rest) = b # stepLowerUpper rest"
  by (cases rest) (simp_all add: upper_not_lower upper_not_digit)

lemma stepLowerUpper_hd: "\<exists>t. stepLowerUpper (c # r) = c # t"
  by (cases r) simp_all

lemma replaceLowerUpper_step: "replaceLowerUpper s = stepLowerUpper s"
proof (induction s rule: replaceLowerUpper.induct)
  case (1 a b rest)
  then show ?case by (simp add: stepLowerUpper_upper)
qed simp_all

lemma stepAcronym_upper_lower:
  "isUpper b \<Longrightarrow> isLower c \<Longrightarrow> stepAcronym (b # c # rest) = b # c # stepAcronym rest"
proof (cases rest)
  case Nil
  then show ?thesis by simp
next
  case (Cons d r)
  assume "isUpper b" "isLower c"
  then have nc: "\<not> isUpper c" using upper_not_lower by blast
  have 1: "stepAcronym (b # c # d # r) = b # stepAcronym (c # d # r)"
    using nc by simp
  have 2: "stepAcronym (c # d # r) = c # stepAcronym (d # r)"
    using nc by (cases r) simp_all
  show ?thesis using 1 2 Cons by simp
qed

lemma stepAcronym_skip:
  "\<not> (isUpper a \<and> isUpper b) \<Longrightarrow> stepAcronym (a # b # t) = a # stepAcronym (b # t)"
  by (cases t) auto

lemma replaceAcronym_step: "replaceAcronym s = stepAcronym s"
proof (induction s rule: replaceAcronym.induct)
  case (1 a b c rest)
  then show ?case by (simp add: stepAcronym_upper_lower)
qed simp_all

lemma step_compose: "stepAcronym (stepLowerUpper s) = specBoundaries s"
proof (induction s rule: specBoundaries.induct)
  case (1 a b rest)
  show ?case
  proof (cases "(isLower a \<or> isDigit a) \<and> isUpper b")
    case True
    then have na: "\<not> isUpper a" using upper_not_lower upper_not_digit by blast
    have sl: "stepLowerUpper (a # b # rest) = a # CHR ''_'' # stepLowerUpper (b # rest)"
      using True by simp
    obtain t where t: "stepLowerUpper (b # rest) = b # t"
      using stepLowerUpper_hd by blast
    have "stepAcronym (a # CHR ''_'' # b # t) = a # CHR ''_'' # stepAcronym (b # t)"
      using na by (cases t) (simp_all add: underscore_class)
    then show ?thesis using True sl t 1 na by simp
  next
    case False
    then have sl: "stepLowerUpper (a # b # rest) = a # stepLowerUpper (b # rest)"
      by auto
    from False 1 have ih: "stepAcronym (stepLowerUpper (b # rest)) = specBoundaries (b # rest)"
      by auto
    obtain t where t: "stepLowerUpper (b # rest) = b # t"
      using stepLowerUpper_hd by blast
    show ?thesis
    proof (cases "isUpper a \<and> isUpper b")
      case uu: True
      then have t': "t = stepLowerUpper rest"
        using t stepLowerUpper_upper by simp
      show ?thesis
      proof (cases rest)
        case Nil
        then show ?thesis
          using uu by (simp add: underscore_class upper_not_lower upper_not_digit)
      next
        case (Cons c r)
        then obtain t2 where t2: "t = c # t2"
          using t' stepLowerUpper_hd by blast
        have "stepAcronym (a # b # c # t2) =
                (if isLower c then a # CHR ''_'' # stepAcronym (b # c # t2)
                 else a # stepAcronym (b # c # t2))"
          using uu by simp
        then show ?thesis using sl t t2 ih Cons uu False by simp
      qed
    next
      case nuu: False
      then have "stepAcronym (a # b # t) = a # stepAcronym (b # t)"
        by (rule stepAcronym_skip)
      then show ?thesis using sl t ih nuu False by auto
    qed
  qed
qed simp_all

lemma normalizeToSnakeCase_spec: "normalizeToSnakeCase s = specSnakeCase s"
proof (cases s)
  case Nil
  then show ?thesis
    by (simp add: normalizeToSnakeCase_def specSnakeCase_def toLowerCase_def)
next
  case (Cons a as)
  then show ?thesis
    by (simp add: normalizeToSnakeCase_def specSnakeCase_def replaceLowerUpper_step
        replaceAcronym_step step_compose)
qed

lemma replaceLowerUpper_no_upper:
  "list_all (\<lambda>c. \<not> isUpper c) s \<Longrightarrow> replaceLowerUpper s = s"
  by (induction s rule: replaceLowerUpper.induct) simp_all

lemma replaceAcronym_no_upper:
  "list_all (\<lambda>c. \<not> isUpper c) s \<Longrightarrow> replaceAcronym s = s"
  by (induction s rule: replaceAcronym.induct) simp_all

lemma normalizeToSnakeCase_no_upper:
  "list_all (\<lambda>c. \<not> isUpper c) (normalizeToSnakeCase s)"
  by (simp add: normalizeToSnakeCase_def toLowerCase_no_upper)

lemma normalizeToSnakeCase_fixed:
  "list_all (\<lambda>c. \<not> isUpper c) s \<Longrightarrow> normalizeToSnakeCase s = s"
  by (simp add: normalizeToSnakeCase_def replaceLowerUpper_no_upper replaceAcronym_no_upper
      toLowerCase_fixed)

lemma snake_NFTCollection: "normalizeToSnakeCase ''NFTCollection'' = ''nft_collection''"
  by code_simp

lemma snake_MyNFTV2: "normalizeToSnakeCase ''MyNFTV2'' = ''my_nftv2''"
  by code_simp

text \<open>
  Claim C1. For every input string, \<^verbatim>\<open>normalizeToSnakeCase\<close> inserts an underscore between a
  lowercase-or-digit character and a following uppercase character, and between an uppercase
  character and a following uppercase-then-lowercase pair, and lowercases the result: the two
  replace passes of the code compute the boundary rule of the specification. In particular
  \<^verbatim>\<open>NFTCollection\<close> becomes \<^verbatim>\<open>nft_collection\<close>, the acronym run is not split letter by letter.
\<close>

theorem normalizeToSnakeCase_boundaries:
  "normalizeToSnakeCase s = toLowerCase (specBoundaries s)
   \<and> normalizeToSnakeCase ''NFTCollection'' = ''nft_collection''
   \<and> normalizeToSnakeCase ''NFTCollection'' \<noteq> ''n_f_t_collection''"
proof -
  have "normalizeToSnakeCase s = toLowerCase (specBoundaries s)"
    using normalizeToSnakeCase_spec by (simp add: specSnakeCase_def)
  then show ?thesis
    using snake_NFTCollection by simp
qed

theorem normalizeToSnakeCase_boundaries_witness:
  "normalizeToSnakeCase ''MyNFTV2'' = toLowerCase (specBoundaries ''MyNFTV2'')
   \<and> toLowerCase (specBoundaries ''MyNFTV2'') = ''my_nftv2''"
proof -
  have "toLowerCase (specBoundaries ''MyNFTV2'') = ''my_nftv2''"
    by code_simp
  then show ?thesis
    using normalizeToSnakeCase_boundaries [of "''MyNFTV2''"] by simp
qed

text \<open>
  Claim C7. For every string composed only of letters and digits, \<^verbatim>\<open>normalizeToSnakeCase\<close> is
  idempotent: applied to its own output it returns that output unchanged.
\<close>

theorem normalizeToSnakeCase_idempotent:
  assumes "list_all (\<lambda>c. isUpper c \<or> isLower c \<or> isDigit c) s"
  shows "normalizeToSnakeCase (normalizeToSnakeCase s) = normalizeToSnakeCase s"
  using normalizeToSnakeCase_no_upper by (rule normalizeToSnakeCase_fixed)

theorem normalizeToSnakeCase_idempotent_witness:
  "list_all (\<lambda>c. isUpper c \<or> isLower c \<or> isDigit c) ''MyNFTV2''
   \<and> normalizeToSnakeCase ''MyNFTV2'' = ''my_nftv2''
   \<and> normalizeToSnakeCase ''my_nftv2'' = ''my_nftv2''"
proof -
  have h: "list_all (\<lambda>c. isUpper c \<or> isLower c \<or> isDigit c) ''MyNFTV2''"
    by (simp add: isUpper_def isLower_def isDigit_def)
  show ?thesis
    using h normalizeToSnakeCase_idempotent [OF h] snake_MyNFTV2 by simp
qed

section \<open>Diagnostics (src/types.ts)\<close>

text \<open>
  The field \<^verbatim>\<open>file\<close> of the source is \<open>file'\<close> here: \<^verbatim>\<open>file\<close> is a reserved word.
\<close>

datatype ErrorType = StructureValidation | BrokenProject | NamingConsistency | MissingContract

record LinterError =
  type :: ErrorType
  file' :: string
  message :: string

section \<open>Paths and the filesystem\<close>

text \<open>
  A path is a resolved absolute POSIX path, held as the list of its components below the root:
  \<open>[]\<close> is \<^verbatim>\<open>/\<close>, and \<^verbatim>\<open>path.join(dir, name)\<close> is \<open>dir @ [name]\<close>. The linter's entry point
  resolves the scan path before any check, and the glob calls return absolute paths.
  \<open>absStr\<close> and \<open>relStr\<close> print an absolute and a relative path; \<open>relative\<close> is
  \<^verbatim>\<open>path.relative\<close>, \<open>joinRel\<close> is \<^verbatim>\<open>path.join\<close> of a path and a relative path given as a string.
\<close>

type_synonym path = "string list"

fun joinWith :: "string \<Rightarrow> string list \<Rightarrow> string" where
  "joinWith sep [] = []"
| "joinWith sep [x] = x"
| "joinWith sep (x # y # ys) = x @ sep @ joinWith sep (y # ys)"

definition quoted :: "string \<Rightarrow> string" where
  "quoted s = CHR 0x27 # s @ [CHR 0x27]"

definition absStr :: "path \<Rightarrow> string" where
  "absStr p = CHR ''/'' # joinWith ''/'' p"

definition relStr :: "string list \<Rightarrow> string" where
  "relStr p = joinWith ''/'' p"

definition dirname :: "path \<Rightarrow> path" where
  "dirname p = butlast p"

definition basename :: "path \<Rightarrow> string" where
  "basename p = (case rev p of [] \<Rightarrow> [] | n # _ \<Rightarrow> n)"

fun relative :: "path \<Rightarrow> path \<Rightarrow> string list" where
  "relative (a # as) (b # bs) =
     (if a = b then relative as bs else replicate (length (a # as)) ''..'' @ (b # bs))"
| "relative [] bs = bs"
| "relative as [] = replicate (length as) ''..''"

fun splitOn :: "char \<Rightarrow> string \<Rightarrow> string list" where
  "splitOn c [] = [[]]"
| "splitOn c (x # xs) =
     (if x = c then [] # splitOn c xs
      else (case splitOn c xs of [] \<Rightarrow> [[x]] | w # ws \<Rightarrow> (x # w) # ws))"

definition joinRel :: "path \<Rightarrow> string \<Rightarrow> path" where
  "joinRel base rel =
     foldl (\<lambda>acc seg. if seg = [] \<or> seg = ''.'' then acc
                       else if seg = ''..'' then butlast acc
                       else acc @ [seg])
       base (splitOn CHR ''/'' rel)"

text \<open>
  \<^verbatim>\<open>path.extname\<close> of a file name: from the last dot on, and empty when the name has no dot,
  when its only dot comes first, or when the name is \<^verbatim>\<open>..\<close>. \<open>stripExt\<close> is the second argument
  of \<^verbatim>\<open>path.basename\<close>, and with \<open>extname\<close> the \<^verbatim>\<open>name\<close> of \<^verbatim>\<open>path.parse\<close>.
\<close>

definition extname :: "string \<Rightarrow> string" where
  "extname name =
     (let suf = rev (takeWhile (\<lambda>c. c \<noteq> CHR ''.'') (rev name));
          pre = take (length name - length suf - 1) name
      in if CHR ''.'' \<notin> set name \<or> pre = [] \<or> name = ''..'' then [] else CHR ''.'' # suf)"

definition stripExt :: "string \<Rightarrow> string \<Rightarrow> string" where
  "stripExt name ext =
     (if ext \<noteq> [] \<and> suffix ext name \<and> name \<noteq> ext
      then take (length name - length ext) name else name)"

definition extnameStr :: "string \<Rightarrow> string" where
  "extnameStr p = (case rev (splitOn CHR ''/'' p) of [] \<Rightarrow> [] | name # rest \<Rightarrow> extname name)"

text \<open>
  The filesystem is a snapshot: the list of every existing path below the root with what it is,
  in the order the operating system lists it. A file that cannot be read carries the message of
  the error its read raises.
\<close>

datatype fsentry = Directory | File string | Unreadable string

type_synonym filesystem = "(path \<times> fsentry) list"

definition stat :: "filesystem \<Rightarrow> path \<Rightarrow> fsentry option" where
  "stat fs p = (if p = [] then Some Directory else map_of fs p)"

definition existsSync :: "filesystem \<Rightarrow> path \<Rightarrow> bool" where
  "existsSync fs p = (stat fs p \<noteq> None)"

definition isDirectory :: "filesystem \<Rightarrow> path \<Rightarrow> bool" where
  "isDirectory fs p = (stat fs p = Some Directory)"

definition isFile :: "filesystem \<Rightarrow> path \<Rightarrow> bool" where
  "isFile fs p = (case stat fs p of Some (File content) \<Rightarrow> True | Some (Unreadable msg) \<Rightarrow> True | _ \<Rightarrow> False)"

definition readFileSync :: "filesystem \<Rightarrow> path \<Rightarrow> string + string" where
  "readFileSync fs p =
     (case stat fs p of
        Some (File content) \<Rightarrow> Inr content
      | Some (Unreadable msg) \<Rightarrow> Inl msg
      | Some Directory \<Rightarrow> Inl ''EISDIR: illegal operation on a directory, read''
      | None \<Rightarrow> Inl (''ENOENT: no such file or directory, open '' @ quoted (absStr p)))"

definition readdirSync :: "filesystem \<Rightarrow> path \<Rightarrow> string list option" where
  "readdirSync fs d =
     (if isDirectory fs d
      then Some (map (\<lambda>(p, e). basename p) (filter (\<lambda>(p, e). p \<noteq> [] \<and> dirname p = d) fs))
      else None)"

text \<open>An insertion-ordered JavaScript \<^verbatim>\<open>Map\<close>, or the own properties of an object: \<^verbatim>\<open>set\<close>.\<close>

fun mapSet :: "('k \<times> 'v) list \<Rightarrow> 'k \<Rightarrow> 'v \<Rightarrow> ('k \<times> 'v) list" where
  "mapSet [] k v = [(k, v)]"
| "mapSet ((k', v') # m) k v = (if k' = k then (k, v) # m else (k', v') # mapSet m k v)"

lemma map_fst_mapSet:
  "map fst (mapSet m k v) = (if k \<in> fst ` set m then map fst m else map fst m @ [k])"
  by (induction m) force+

lemma set_mapSet: "set (mapSet m k v) \<subseteq> insert (k, v) (set m)"
  by (induction m) (auto split: if_splits)

lemma mapSet_fresh: "k \<notin> fst ` set m \<Longrightarrow> mapSet m k v = m @ [(k, v)]"
  by (induction m) auto

lemma mapSet_snoc: "k \<notin> fst ` set m \<Longrightarrow> mapSet (m @ [(k, u)]) k v = m @ [(k, v)]"
  by (induction m) auto

lemma mapSet_keyed:
  "k0 \<in> set ks \<Longrightarrow> distinct ks \<Longrightarrow>
     mapSet (map (\<lambda>k. (k, f k)) ks) k0 v = map (\<lambda>k. (k, if k = k0 then v else f k)) ks"
proof (induction ks)
  case Nil
  then show ?case by simp
next
  case (Cons k ks)
  show ?case
  proof (cases "k = k0")
    case True
    then have "k0 \<notin> set ks" using Cons.prems by simp
    then have "map (\<lambda>k. (k, if k = k0 then v else f k)) ks = map (\<lambda>k. (k, f k)) ks"
      by (intro map_cong) auto
    then show ?thesis using True by simp
  next
    case False
    then show ?thesis using Cons by simp
  qed
qed

lemma map_of_keyed:
  "map_of (map (\<lambda>k. (k, f k)) ks) k0 = (if k0 \<in> set ks then Some (f k0) else None)"
  by (induction ks) auto

subsection \<open>The glob library\<close>

text \<open>
  Modelled from the spec: the filesystem glob facility is an external collaborator, whose
  contract is to return the matching paths of a pattern, excluding given exclusions. The model
  covers the pattern shapes the linter builds: literal segments, \<^verbatim>\<open>**\<close>, \<^verbatim>\<open>*.*\<close> and a star
  followed by one of several suffixes (\<^verbatim>\<open>*.ts\<close>, \<^verbatim>\<open>*{.tact,.fc}\<close>). A pattern does not match a
  segment that starts with a dot; an \<^verbatim>\<open>ignore\<close> pattern does (\<open>dot\<close>). Every result is listed once.
  The model never fails, so the handlers of a failing glob call are left out.
\<close>

datatype segpat = Lit string | GlobStar | StarSuffix "string list" | StarDotStar

type_synonym globpat = "segpat list"

definition hidden :: "string \<Rightarrow> bool" where
  "hidden name = (case name of [] \<Rightarrow> False | c # cs \<Rightarrow> c = CHR ''.'')"

fun matchSeg :: "bool \<Rightarrow> segpat \<Rightarrow> string \<Rightarrow> bool" where
  "matchSeg dot (Lit l) name = (name = l)"
| "matchSeg dot (StarSuffix alts) name = ((dot \<or> \<not> hidden name) \<and> list_ex (\<lambda>e. suffix e name) alts)"
| "matchSeg dot StarDotStar name = ((dot \<or> \<not> hidden name) \<and> CHR ''.'' \<in> set name)"
| "matchSeg dot GlobStar name = False"

fun matchPath :: "bool \<Rightarrow> globpat \<Rightarrow> path \<Rightarrow> bool" where
  "matchPath dot [] segs = (segs = [])"
| "matchPath dot (GlobStar # ps) segs =
     (matchPath dot ps segs
      \<or> (case segs of [] \<Rightarrow> False
          | s # ss \<Rightarrow> (dot \<or> \<not> hidden s) \<and> matchPath dot (GlobStar # ps) ss))"
| "matchPath dot (p # ps) [] = False"
| "matchPath dot (p # ps) (s # ss) = (matchSeg dot p s \<and> matchPath dot ps ss)"

record globOptions =
  nodir :: bool
  ignore :: "globpat list"

definition glob :: "filesystem \<Rightarrow> globpat list \<Rightarrow> globOptions \<Rightarrow> path list" where
  "glob fs patterns opts =
     remdups (filter (\<lambda>p. list_ex (\<lambda>pat. matchPath False pat p) patterns
                        \<and> \<not> list_ex (\<lambda>ig. matchPath True ig p) (ignore opts)
                        \<and> (if nodir opts then \<not> isDirectory fs p else True))
               (map fst fs))"

text \<open>
  The linter builds its patterns by joining a directory path and the pattern proper into one
  string, so glob reads the segments of the directory as patterns too. The segments of a
  directory are modelled as literal segments, which is what they are when the path is plain:
  when it holds none of the characters of glob's syntax.
\<close>

definition globSyntax :: "char list" where
  "globSyntax = ''*?[]{}()!+@|'' @ [CHR 0x5C]"

definition plainSegment :: "string \<Rightarrow> bool" where
  "plainSegment s = list_all (\<lambda>c. c \<notin> set globSyntax) s"

definition plainPath :: "string list \<Rightarrow> bool" where
  "plainPath p = list_all plainSegment p"

definition IGNORE_NODE_MODULES :: globpat where
  "IGNORE_NODE_MODULES = [GlobStar, Lit ''node_modules'', GlobStar]"

definition IGNORE_DECLARATIONS :: globpat where
  "IGNORE_DECLARATIONS = [GlobStar, StarSuffix [''.d.ts'']]"

lemma distinct_glob: "distinct (glob fs patterns opts)"
  by (simp add: glob_def)

lemma matchPath_GlobStar_all: "matchPath True [GlobStar] p"
  by (induction p) simp_all

lemma matchPath_node_modules:
  "matchPath True IGNORE_NODE_MODULES p \<longleftrightarrow> ''node_modules'' \<in> set p"
  unfolding IGNORE_NODE_MODULES_def
proof (induction p)
  case Nil
  then show ?case by simp
next
  case (Cons s ss)
  have "matchPath True [GlobStar, Lit ''node_modules'', GlobStar] (s # ss)
          \<longleftrightarrow> (s = ''node_modules'' \<and> matchPath True [GlobStar] ss)
               \<or> matchPath True [GlobStar, Lit ''node_modules'', GlobStar] ss"
    by simp
  then show ?case using Cons matchPath_GlobStar_all by auto
qed

lemma glob_ignores_node_modules:
  assumes "IGNORE_NODE_MODULES \<in> set (ignore opts)" and "p \<in> set (glob fs patterns opts)"
  shows "''node_modules'' \<notin> set p"
  using assms by (auto simp: glob_def list_ex_iff matchPath_node_modules)

lemma matchPath_literal_prefix:
  "matchPath dot (map Lit pre @ rest) p \<longleftrightarrow> (\<exists>q. p = pre @ q \<and> matchPath dot rest q)"
proof (induction pre arbitrary: p)
  case Nil
  then show ?case by simp
next
  case (Cons a pre)
  show ?case
  proof (cases p)
    case Nil
    then show ?thesis by simp
  next
    case (Cons s ss)
    then show ?thesis using Cons.IH [of ss] by auto
  qed
qed

lemma matchPath_single:
  "pat \<noteq> GlobStar \<Longrightarrow> matchPath dot [pat] q \<longleftrightarrow> (\<exists>name. q = [name] \<and> matchSeg dot pat name)"
  by (cases pat; cases q) auto

lemma matchPath_any_depth:
  assumes "pat \<noteq> GlobStar"
  shows "matchPath dot [GlobStar, pat] q \<longleftrightarrow>
     (\<exists>sub name. q = sub @ [name] \<and> list_all (\<lambda>s. dot \<or> \<not> hidden s) sub
        \<and> matchSeg dot pat name)"
proof (induction q)
  case Nil
  then show ?case using matchPath_single [OF assms, of dot "[]"] by simp
next
  case (Cons s ss)
  have "matchPath dot [GlobStar, pat] (s # ss)
          \<longleftrightarrow> matchPath dot [pat] (s # ss)
               \<or> ((dot \<or> \<not> hidden s) \<and> matchPath dot [GlobStar, pat] ss)"
    by simp
  also have "\<dots> \<longleftrightarrow> (ss = [] \<and> matchSeg dot pat s)
               \<or> ((dot \<or> \<not> hidden s)
                   \<and> (\<exists>sub name. ss = sub @ [name] \<and> list_all (\<lambda>s. dot \<or> \<not> hidden s) sub
                         \<and> matchSeg dot pat name))"
    using matchPath_single [OF assms, of dot "s # ss"] Cons.IH by auto
  also have "\<dots> \<longleftrightarrow> (\<exists>sub name. s # ss = sub @ [name] \<and> list_all (\<lambda>s. dot \<or> \<not> hidden s) sub
                         \<and> matchSeg dot pat name)"
  proof
    assume "(ss = [] \<and> matchSeg dot pat s)
               \<or> ((dot \<or> \<not> hidden s)
                   \<and> (\<exists>sub name. ss = sub @ [name] \<and> list_all (\<lambda>s. dot \<or> \<not> hidden s) sub
                         \<and> matchSeg dot pat name))"
    then show "\<exists>sub name. s # ss = sub @ [name] \<and> list_all (\<lambda>s. dot \<or> \<not> hidden s) sub
                         \<and> matchSeg dot pat name"
    proof
      assume "ss = [] \<and> matchSeg dot pat s"
      then have "s # ss = [] @ [s] \<and> list_all (\<lambda>s. dot \<or> \<not> hidden s) [] \<and> matchSeg dot pat s"
        by simp
      then show ?thesis by blast
    next
      assume "(dot \<or> \<not> hidden s)
                   \<and> (\<exists>sub name. ss = sub @ [name] \<and> list_all (\<lambda>s. dot \<or> \<not> hidden s) sub
                         \<and> matchSeg dot pat name)"
      then obtain sub name where "dot \<or> \<not> hidden s" "ss = sub @ [name]"
        "list_all (\<lambda>s. dot \<or> \<not> hidden s) sub" "matchSeg dot pat name"
        by blast
      then have "s # ss = (s # sub) @ [name] \<and> list_all (\<lambda>s. dot \<or> \<not> hidden s) (s # sub)
                   \<and> matchSeg dot pat name"
        by simp
      then show ?thesis by blast
    qed
  next
    assume "\<exists>sub name. s # ss = sub @ [name] \<and> list_all (\<lambda>s. dot \<or> \<not> hidden s) sub
                         \<and> matchSeg dot pat name"
    then obtain sub name where e: "s # ss = sub @ [name]"
      and a: "list_all (\<lambda>s. dot \<or> \<not> hidden s) sub" and m: "matchSeg dot pat name"
      by blast
    show "(ss = [] \<and> matchSeg dot pat s)
               \<or> ((dot \<or> \<not> hidden s)
                   \<and> (\<exists>sub name. ss = sub @ [name] \<and> list_all (\<lambda>s. dot \<or> \<not> hidden s) sub
                         \<and> matchSeg dot pat name))"
    proof (cases sub)
      case Nil
      then show ?thesis using e m by simp
    next
      case (Cons x xs)
      then have "x = s" "ss = xs @ [name]" using e by simp_all
      then show ?thesis using a m Cons by auto
    qed
  qed
  finally show ?case .
qed

lemma isFile_listed: "isFile fs p \<Longrightarrow> p \<in> set (map fst fs) \<and> \<not> isDirectory fs p"
  by (auto simp: isFile_def isDirectory_def stat_def rev_image_eqI
      dest!: map_of_SomeD split: option.splits fsentry.splits if_splits)

section \<open>Structural validator (src/checks/initializationCheck.ts)\<close>

text \<open>
  The value \<^verbatim>\<open>JSON.parse\<close> returns. \<open>truthy\<close> is JavaScript's conversion to boolean, the test
  behind \<^verbatim>\<open>||\<close> and \<^verbatim>\<open>!\<close>; \<open>None\<close> is \<^verbatim>\<open>undefined\<close>. \<^verbatim>\<open>JSON.parse\<close> itself is a parameter
  of the validator: \<open>Inl\<close> carries the message of the \<^verbatim>\<open>SyntaxError\<close> it throws.
\<close>

datatype json = JNull | JBool bool | JNumber rat | JString string
  | JArray "json list" | JObject "(string \<times> json) list"

fun truthy :: "json \<Rightarrow> bool" where
  "truthy JNull = False"
| "truthy (JBool b) = b"
| "truthy (JNumber n) = (n \<noteq> 0)"
| "truthy (JString s) = (s \<noteq> [])"
| "truthy (JArray xs) = True"
| "truthy (JObject ps) = True"

fun showNat :: "nat \<Rightarrow> string" where
  "showNat n = (if n < 10 then [char_of (48 + n)] else showNat (n div 10) @ [char_of (48 + n mod 10)])"

definition ownProps :: "json \<Rightarrow> (string \<times> json) list" where
  "ownProps v =
     (case v of
        JObject ps \<Rightarrow> ps
      | JArray xs \<Rightarrow> map (\<lambda>(i, x). (showNat i, x)) (enumerate 0 xs)
      | JString s \<Rightarrow> map (\<lambda>(i, c). (showNat i, JString [c])) (enumerate 0 s)
      | _ \<Rightarrow> [])"

text \<open>
  Reading the property \<^verbatim>\<open>dependencies\<close> or \<^verbatim>\<open>devDependencies\<close>: of \<^verbatim>\<open>null\<close> it throws a
  \<^verbatim>\<open>TypeError\<close>, of a string, number, boolean or array it is \<^verbatim>\<open>undefined\<close>.
\<close>

definition getProp :: "json \<Rightarrow> string \<Rightarrow> string + json option" where
  "getProp v k =
     (case v of
        JNull \<Rightarrow> Inl (''Cannot read properties of null (reading '' @ quoted k @ '')'')
      | JObject ps \<Rightarrow> Inr (map_of ps k)
      | _ \<Rightarrow> Inr None)"

definition orEmpty :: "json option \<Rightarrow> json" where
  "orEmpty v = (case v of None \<Rightarrow> JObject [] | Some j \<Rightarrow> if truthy j then j else JObject [])"

definition objectSpread :: "json list \<Rightarrow> (string \<times> json) list" where
  "objectSpread vs = foldl (\<lambda>acc (k, v). mapSet acc k v) [] (concat (map ownProps vs))"

definition REQUIRED_DEP :: string where
  "REQUIRED_DEP = ''@ton-ai-core/blueprint''"

definition REQUIRED_CONFIG :: string where
  "REQUIRED_CONFIG = ''blueprint.config.ts''"

definition REQUIRED_NODE_MODULES_DIR :: "string list" where
  "REQUIRED_NODE_MODULES_DIR = [''node_modules'', ''@ton-ai-core'', ''blueprint'']"

text \<open>The \<^verbatim>\<open>try\<close> block: every error thrown in it ends in the diagnostic of the \<^verbatim>\<open>catch\<close>.\<close>

definition packageJsonErrors ::
  "(string \<Rightarrow> string + json) \<Rightarrow> filesystem \<Rightarrow> path \<Rightarrow> LinterError list" where
  "packageJsonErrors JSON_parse fs packageJsonPath =
     (let caught = (\<lambda>msg. [\<lparr>type = StructureValidation, file' = absStr packageJsonPath,
                              message = ''Error reading or parsing: '' @ msg\<rparr>])
      in case readFileSync fs packageJsonPath of
           Inl msg \<Rightarrow> caught msg
         | Inr packageJsonContent \<Rightarrow>
            (case JSON_parse packageJsonContent of
               Inl msg \<Rightarrow> caught msg
             | Inr packageJson \<Rightarrow>
                (case getProp packageJson ''dependencies'' of
                   Inl msg \<Rightarrow> caught msg
                 | Inr deps \<Rightarrow>
                    (case getProp packageJson ''devDependencies'' of
                       Inl msg \<Rightarrow> caught msg
                     | Inr devDeps \<Rightarrow>
                        (let allDeps = objectSpread [orEmpty deps, orEmpty devDeps]
                         in if (case map_of allDeps REQUIRED_DEP of None \<Rightarrow> False | Some v \<Rightarrow> truthy v)
                            then []
                            else [\<lparr>type = StructureValidation, file' = absStr packageJsonPath,
                                   message = ''Key dependency '' @ quoted REQUIRED_DEP @ '' not found.''\<rparr>])))))"

definition validateProjectStructure ::
  "(string \<Rightarrow> string + json) \<Rightarrow> filesystem \<Rightarrow> path \<Rightarrow> LinterError list" where
  "validateProjectStructure JSON_parse fs projectRoot =
     (let packageJsonPath = projectRoot @ [''package.json''] in
      if \<not> existsSync fs packageJsonPath
      then [\<lparr>type = StructureValidation, file' = absStr projectRoot,
             message = ''Missing '' @ quoted ''package.json''\<rparr>]
      else packageJsonErrors JSON_parse fs packageJsonPath
         @ (if \<not> existsSync fs (projectRoot @ [REQUIRED_CONFIG])
            then [\<lparr>type = StructureValidation, file' = absStr projectRoot,
                   message = ''Configuration file '' @ quoted REQUIRED_CONFIG @ '' not found.''\<rparr>]
            else [])
         @ (if \<not> existsSync fs (projectRoot @ REQUIRED_NODE_MODULES_DIR)
            then [\<lparr>type = StructureValidation, file' = absStr projectRoot,
                   message = ''Local blueprint installation not found at ''
                     @ quoted (relStr REQUIRED_NODE_MODULES_DIR)
                     @ ''. Did you run '' @ quoted ''npm install'' @ ''?''\<rparr>]
            else []))"

text \<open>
  Claim C9. For every directory that holds no \<^verbatim>\<open>package.json\<close>, \<^verbatim>\<open>validateProjectStructure\<close>
  returns exactly one diagnostic, the missing manifest, whatever the parser and the rest of the
  filesystem are: neither the dependency check nor the checks of the configuration file and of
  the local module add anything.
\<close>

theorem validateProjectStructure_missing_manifest:
  assumes "\<not> existsSync fs (projectRoot @ [''package.json''])"
  shows "validateProjectStructure JSON_parse fs projectRoot =
           [\<lparr>type = StructureValidation, file' = absStr projectRoot,
             message = ''Missing '' @ quoted ''package.json''\<rparr>]"
  using assms by (simp add: validateProjectStructure_def)

theorem validateProjectStructure_missing_manifest_witness:
  "\<not> existsSync [([''p''], Directory)] ([''p''] @ [''package.json''])
   \<and> \<not> existsSync [([''p''], Directory)] ([''p''] @ [REQUIRED_CONFIG])
   \<and> \<not> existsSync [([''p''], Directory)] ([''p''] @ REQUIRED_NODE_MODULES_DIR)
   \<and> length (validateProjectStructure (\<lambda>s. Inl ''unused'') [([''p''], Directory)] [''p'']) = 1"
proof -
  have h: "\<not> existsSync [([''p''], Directory)] ([''p''] @ [''package.json''])"
    by (simp add: existsSync_def stat_def)
  have c: "\<not> existsSync [([''p''], Directory)] ([''p''] @ [REQUIRED_CONFIG])"
    by (simp add: existsSync_def stat_def REQUIRED_CONFIG_def)
  have m: "\<not> existsSync [([''p''], Directory)] ([''p''] @ REQUIRED_NODE_MODULES_DIR)"
    by (simp add: existsSync_def stat_def REQUIRED_NODE_MODULES_DIR_def)
  show ?thesis
    using h c m validateProjectStructure_missing_manifest [OF h, of "\<lambda>s. Inl ''unused''"] by simp
qed

text \<open>
  With a manifest, the three checks are independent: the result is the diagnostics of the
  manifest, then the one of the configuration file, then the one of the local module, and one
  pass can return all three.
\<close>

lemma validateProjectStructure_independent:
  assumes "existsSync fs (projectRoot @ [''package.json''])"
  shows "validateProjectStructure JSON_parse fs projectRoot
     = packageJsonErrors JSON_parse fs (projectRoot @ [''package.json''])
       @ (if existsSync fs (projectRoot @ [REQUIRED_CONFIG]) then []
          else [\<lparr>type = StructureValidation, file' = absStr projectRoot,
                 message = ''Configuration file '' @ quoted REQUIRED_CONFIG @ '' not found.''\<rparr>])
       @ (if existsSync fs (projectRoot @ REQUIRED_NODE_MODULES_DIR) then []
          else [\<lparr>type = StructureValidation, file' = absStr projectRoot,
                 message = ''Local blueprint installation not found at ''
                   @ quoted (relStr REQUIRED_NODE_MODULES_DIR)
                   @ ''. Did you run '' @ quoted ''npm install'' @ ''?''\<rparr>])"
  using assms by (simp add: validateProjectStructure_def Let_def)

lemma validateProjectStructure_three:
  "length (validateProjectStructure (\<lambda>s. Inr (JObject []))
     [([''p''], Directory), ([''p'', ''package.json''], File ''{}'')] [''p'']) = 3"
  by code_simp

definition emptyVersionManifest :: json where
  "emptyVersionManifest = JObject [(''name'', JString ''demo''),
     (''dependencies'', JObject [(REQUIRED_DEP, JString [])])]"

definition installedFs :: filesystem where
  "installedFs = [([''p''], Directory),
     ([''p'', ''package.json''], File ''{ \"name\": \"demo\", \"dependencies\": { \"@ton-ai-core/blueprint\": \"\" } }''),
     ([''p'', ''blueprint.config.ts''], File []),
     ([''p'', ''node_modules''], Directory),
     ([''p'', ''node_modules'', ''@ton-ai-core''], Directory),
     ([''p'', ''node_modules'', ''@ton-ai-core'', ''blueprint''], Directory)]"

text \<open>
  Claim C5 says that the required dependency is accepted if its key appears in the
  \<^verbatim>\<open>dependencies\<close> or the \<^verbatim>\<open>devDependencies\<close> map. The code tests \<^verbatim>\<open>!allDeps[REQUIRED_DEP]\<close>, the
  truth value of the entry and not its presence: a manifest that declares the dependency with
  the version \<^verbatim>\<open>""\<close> (any version, for npm) is reported as not declaring it, in a project where
  everything else is in place.
\<close>

theorem validateProjectStructure_empty_version:
  "map_of (ownProps (JObject [(REQUIRED_DEP, JString [])])) REQUIRED_DEP = Some (JString [])
   \<and> validateProjectStructure (\<lambda>content. Inr emptyVersionManifest) installedFs [''p'']
     = [\<lparr>type = StructureValidation, file' = ''/p/package.json'',
         message = ''Key dependency '' @ quoted ''@ton-ai-core/blueprint'' @ '' not found.''\<rparr>]"
  by code_simp

section \<open>Root-folder check\<close>

text \<open>
  The repository holds two versions of \<^verbatim>\<open>checkRootFolder\<close>. \<open>checkRootFolder\<close> is the one that
  reports the forbidden directories in a single diagnostic with a snapshot of the parent
  directory (with \<^verbatim>\<open>generateDirTree\<close>); \<open>checkRootFolder_perDir\<close> is the one of
  src/checks/rootFolderCheck.ts, which reports each forbidden directory in a diagnostic of its own.

  \<^verbatim>\<open>localeCompare\<close> is a parameter. \<^verbatim>\<open>Array.prototype.sort\<close> is stable; it is computed here by
  insertion, which is what it returns for a consistent comparator. The box-drawing characters
  of the connectors are their UTF-8 bytes.
\<close>

definition MARKER_ITEMS :: "string list" where
  "MARKER_ITEMS = [''.cursor'', ''.knowledge'', ''.vscode'', ''package.json'', ''.windsurf'',
     ''.cursorrules'', ''.windsurfrules'', ''tsconfig.json'']"

definition FORBIDDEN_DIRS :: "string list" where
  "FORBIDDEN_DIRS = [''scripts'', ''script'', ''contracts'', ''contract'', ''tests'', ''test'',
     ''wrappers'']"

definition IGNORED_ITEMS :: "string list" where
  "IGNORED_ITEMS = [''node_modules'', ''.git'', ''.cursor'', ''.windsurf'', ''.vscode'', ''.knowledge'']"

definition newline :: string where
  "newline = [CHR 0x0A]"

definition connectorMid :: string where
  "connectorMid = [CHR 0xE2, CHR 0x94, CHR 0x9C, CHR 0xE2, CHR 0x94, CHR 0x80, CHR 0xE2, CHR 0x94, CHR 0x80, CHR '' '']"

definition connectorLast :: string where
  "connectorLast = [CHR 0xE2, CHR 0x94, CHR 0x94, CHR 0xE2, CHR 0x94, CHR 0x80, CHR 0xE2, CHR 0x94, CHR 0x80, CHR '' '']"

definition prefixMid :: string where
  "prefixMid = [CHR 0xE2, CHR 0x94, CHR 0x82, CHR '' '', CHR '' '', CHR '' '']"

definition prefixLast :: string where
  "prefixLast = [CHR '' '', CHR '' '', CHR '' '', CHR '' '']"

definition entryCompare :: "(string \<Rightarrow> string \<Rightarrow> int) \<Rightarrow> filesystem \<Rightarrow> path \<Rightarrow> string \<Rightarrow> string \<Rightarrow> int" where
  "entryCompare localeCompare fs dir a b =
     (let aIsDir = isDirectory fs (dir @ [a]); bIsDir = isDirectory fs (dir @ [b])
      in if aIsDir \<and> \<not> bIsDir then - 1
         else if \<not> aIsDir \<and> bIsDir then 1
         else localeCompare a b)"

fun insertBy :: "('a \<Rightarrow> 'a \<Rightarrow> int) \<Rightarrow> 'a \<Rightarrow> 'a list \<Rightarrow> 'a list" where
  "insertBy cmp x [] = [x]"
| "insertBy cmp x (y # ys) = (if cmp x y \<le> 0 then x # y # ys else y # insertBy cmp x ys)"

definition arraySort :: "('a \<Rightarrow> 'a \<Rightarrow> int) \<Rightarrow> 'a list \<Rightarrow> 'a list" where
  "arraySort cmp xs = foldr (insertBy cmp) xs []"

definition dirEntries :: "(string \<Rightarrow> string \<Rightarrow> int) \<Rightarrow> filesystem \<Rightarrow> path \<Rightarrow> string list \<Rightarrow> string list" where
  "dirEntries localeCompare fs dir names =
     arraySort (entryCompare localeCompare fs dir) (filter (\<lambda>e. e \<notin> set IGNORED_ITEMS) names)"

function generateDirTree ::
  "(string \<Rightarrow> string \<Rightarrow> int) \<Rightarrow> filesystem \<Rightarrow> path \<Rightarrow> int \<Rightarrow> string \<Rightarrow> string" where
  "generateDirTree localeCompare fs dir depth prefix' =
     (if depth < 0 then []
      else case readdirSync fs dir of
        None \<Rightarrow> []
      | Some names \<Rightarrow>
         (let entries = dirEntries localeCompare fs dir names in
          joinWith newline (concat (map (\<lambda>(index, entry).
            (let fullPath = dir @ [entry];
                 isLast = (Suc index = length entries);
                 connector = (if isLast then connectorLast else connectorMid);
                 childPrefix = prefix' @ (if isLast then prefixLast else prefixMid)
             in if isDirectory fs fullPath
                then (prefix' @ connector @ entry @ ''/'')
                     # (if depth > 0
                        then [generateDirTree localeCompare fs fullPath (depth - 1) childPrefix]
                        else [])
                else [prefix' @ connector @ entry]))
            (enumerate 0 entries)))))"
  by pat_completeness auto

termination
  by (relation "measure (\<lambda>(lc, fs, dir, depth, prefix'). nat (depth + 1))") auto

declare generateDirTree.simps [simp del]

definition checkRootFolder ::
  "(string \<Rightarrow> string \<Rightarrow> int) \<Rightarrow> filesystem \<Rightarrow> path \<Rightarrow> LinterError list" where
  "checkRootFolder localeCompare fs startPath =
     (let parentDir = dirname startPath in
      if parentDir = startPath then []
      else if \<not> list_ex (\<lambda>item. existsSync fs (parentDir @ [item])) MARKER_ITEMS then []
      else
        (let problematicFolders =
               filter (\<lambda>folder. existsSync fs (parentDir @ [folder]) \<and> isDirectory fs (parentDir @ [folder]))
                 FORBIDDEN_DIRS
         in if length problematicFolders > 0
            then (let fsMap = generateDirTree localeCompare fs parentDir 2 [];
                      foldersList = joinWith '', '' (map quoted problematicFolders)
                  in [\<lparr>type = StructureValidation, file' = absStr startPath,
                        message = joinWith newline
                          [''Detected forbidden ''
                             @ (if length problematicFolders = 1 then ''directory'' else ''directories'')
                             @ '' '' @ foldersList @ '' in root '' @ quoted (absStr parentDir) @ ''.'',
                           ''This is a ROOT DIRECTORY ISSUE: '' @ quoted (absStr parentDir)
                             @ '' appears to be a project root directory that contains TON Blueprint project folders directly.'',
                           ''This structure is not recommended. Instead, create individual blueprint projects and place contract folders inside those projects.'',
                           [],
                           ''Snapshot of the ROOT directory '' @ quoted (basename parentDir) @ '' structure:'',
                           fsMap]\<rparr>])
            else []))"

definition checkRootFolder_perDir :: "filesystem \<Rightarrow> path \<Rightarrow> LinterError list" where
  "checkRootFolder_perDir fs startPath =
     (let parentDir = dirname startPath in
      if parentDir = startPath then []
      else if \<not> list_ex (\<lambda>item. existsSync fs (parentDir @ [item])) MARKER_ITEMS then []
      else concat (map (\<lambda>folder.
             if existsSync fs (parentDir @ [folder]) \<and> isDirectory fs (parentDir @ [folder])
             then [\<lparr>type = StructureValidation, file' = absStr startPath,
                    message = ''Forbidden directory '' @ quoted folder @ '' found in root ''
                      @ quoted (absStr parentDir)
                      @ ''. This prevents confusion and ensures contracts are created in the correct location. Create individual blueprint projects instead and place ''
                      @ quoted folder @ '' folders inside them.''\<rparr>]
             else []) FORBIDDEN_DIRS))"

text \<open>
  Claim C10. For every start path that is its own parent, the filesystem root, both versions of
  \<^verbatim>\<open>checkRootFolder\<close> return the empty list, whatever the filesystem holds.
\<close>

theorem checkRootFolder_at_root:
  assumes "dirname startPath = startPath"
  shows "checkRootFolder localeCompare fs startPath = []
         \<and> checkRootFolder_perDir fs startPath = []"
  using assms by (simp add: checkRootFolder_def checkRootFolder_perDir_def)

lemma dirname_fixed_iff: "dirname p = p \<longleftrightarrow> p = []"
  by (cases p rule: rev_cases) (simp_all add: dirname_def)

theorem checkRootFolder_at_root_witness:
  "dirname [] = ([] :: path)
   \<and> checkRootFolder (\<lambda>a b. 0) [([''package.json''], File []), ([''contracts''], Directory)] [] = []
   \<and> checkRootFolder_perDir [([''package.json''], File []), ([''contracts''], Directory)] [] = []"
proof -
  have h: "dirname [] = ([] :: path)"
    by (simp add: dirname_def)
  show ?thesis
    using h checkRootFolder_at_root [OF h] by simp
qed

subsection \<open>The sorted listing of a directory\<close>

text \<open>A comparator is consistent when \<open>cmp a b \<le> 0\<close> is a total preorder.\<close>

definition consistent :: "('a \<Rightarrow> 'a \<Rightarrow> int) \<Rightarrow> bool" where
  "consistent cmp \<longleftrightarrow>
     (\<forall>a b. cmp a b \<le> 0 \<or> cmp b a \<le> 0)
     \<and> (\<forall>a b c. cmp a b \<le> 0 \<and> cmp b c \<le> 0 \<longrightarrow> cmp a c \<le> 0)"

lemma set_insertBy: "set (insertBy cmp x ys) = insert x (set ys)"
  by (induction ys) auto

lemma set_arraySort: "set (arraySort cmp xs) = set xs"
  by (induction xs) (simp_all add: arraySort_def set_insertBy)

lemma sorted_insertBy:
  assumes "consistent cmp" and "sorted_wrt (\<lambda>a b. cmp a b \<le> 0) ys"
  shows "sorted_wrt (\<lambda>a b. cmp a b \<le> 0) (insertBy cmp x ys)"
  using assms(2)
proof (induction ys)
  case Nil
  then show ?case by simp
next
  case (Cons y ys)
  show ?case
  proof (cases "cmp x y \<le> 0")
    case True
    have "\<forall>z\<in>set ys. cmp x z \<le> 0"
      using True Cons.prems assms(1) unfolding consistent_def by (metis sorted_wrt.simps(2))
    then show ?thesis using True Cons.prems by simp
  next
    case False
    then have "cmp y x \<le> 0"
      using assms(1) unfolding consistent_def by blast
    then show ?thesis
      using False Cons by (auto simp: set_insertBy)
  qed
qed

lemma sorted_arraySort:
  "consistent cmp \<Longrightarrow> sorted_wrt (\<lambda>a b. cmp a b \<le> 0) (arraySort cmp xs)"
  by (induction xs) (simp_all add: arraySort_def sorted_insertBy)

lemma entryCompare_le:
  "entryCompare localeCompare fs dir a b \<le> 0 \<longleftrightarrow>
     (isDirectory fs (dir @ [a]) \<and> \<not> isDirectory fs (dir @ [b]))
     \<or> (isDirectory fs (dir @ [a]) = isDirectory fs (dir @ [b]) \<and> localeCompare a b \<le> 0)"
  by (auto simp: entryCompare_def Let_def)

lemma consistent_entryCompare:
  assumes "consistent localeCompare"
  shows "consistent (entryCompare localeCompare fs dir)"
proof -
  have tot: "\<And>a b. localeCompare a b \<le> 0 \<or> localeCompare b a \<le> 0"
    and tr: "\<And>a b c. localeCompare a b \<le> 0 \<Longrightarrow> localeCompare b c \<le> 0 \<Longrightarrow> localeCompare a c \<le> 0"
    using assms unfolding consistent_def by blast+
  have 1: "\<And>a b. entryCompare localeCompare fs dir a b \<le> 0
                  \<or> entryCompare localeCompare fs dir b a \<le> 0"
    unfolding entryCompare_le using tot by blast
  have 2: "\<And>a b c. entryCompare localeCompare fs dir a b \<le> 0
                \<Longrightarrow> entryCompare localeCompare fs dir b c \<le> 0
                \<Longrightarrow> entryCompare localeCompare fs dir a c \<le> 0"
    unfolding entryCompare_le using tr by blast
  show ?thesis
    unfolding consistent_def using 1 2 by blast
qed

lemma dirs_first_split:
  assumes "sorted_wrt R xs" and "\<And>a b. R a b \<Longrightarrow> \<not> D a \<Longrightarrow> \<not> D b"
  shows "xs = filter D xs @ filter (\<lambda>x. \<not> D x) xs"
  using assms(1)
proof (induction xs)
  case Nil
  then show ?case by simp
next
  case (Cons x xs)
  then have ih: "xs = filter D xs @ filter (\<lambda>x. \<not> D x) xs" by simp
  show ?case
  proof (cases "D x")
    case True
    then show ?thesis using ih by simp
  next
    case False
    then have "\<forall>y\<in>set xs. \<not> D y"
      using Cons.prems assms(2) by auto
    then have "filter D xs = []" and "filter (\<lambda>x. \<not> D x) xs = xs"
      by (simp_all add: filter_empty_conv filter_id_conv)
    then show ?thesis using False by simp
  qed
qed

lemma length_insertBy: "length (insertBy cmp x ys) = Suc (length ys)"
  by (induction ys) simp_all

lemma length_arraySort: "length (arraySort cmp xs) = length xs"
  by (induction xs) (simp_all add: arraySort_def length_insertBy)

lemma set_dirEntries:
  "set (dirEntries localeCompare fs dir names) = set names - set IGNORED_ITEMS"
  by (auto simp: dirEntries_def set_arraySort)

lemma dirEntries_sorted:
  assumes "consistent localeCompare"
  shows "sorted_wrt (\<lambda>a b. entryCompare localeCompare fs dir a b \<le> 0)
           (dirEntries localeCompare fs dir names)"
  unfolding dirEntries_def
  using consistent_entryCompare [OF assms] by (rule sorted_arraySort)

lemma dirEntries_dirs_first:
  assumes "consistent localeCompare"
  shows "dirEntries localeCompare fs dir names =
           filter (\<lambda>e. isDirectory fs (dir @ [e])) (dirEntries localeCompare fs dir names)
           @ filter (\<lambda>e. \<not> isDirectory fs (dir @ [e])) (dirEntries localeCompare fs dir names)"
  by (rule dirs_first_split [OF dirEntries_sorted [OF assms]]) (auto simp: entryCompare_le)

lemma dirEntries_alphabetical:
  assumes "consistent localeCompare"
  shows "sorted_wrt (\<lambda>a b. localeCompare a b \<le> 0)
           (filter (\<lambda>e. isDirectory fs (dir @ [e])) (dirEntries localeCompare fs dir names))"
    and "sorted_wrt (\<lambda>a b. localeCompare a b \<le> 0)
           (filter (\<lambda>e. \<not> isDirectory fs (dir @ [e])) (dirEntries localeCompare fs dir names))"
proof -
  let ?es = "dirEntries localeCompare fs dir names"
  let ?R = "\<lambda>a b. entryCompare localeCompare fs dir a b \<le> 0"
  have s: "sorted_wrt ?R ?es" by (rule dirEntries_sorted [OF assms])
  have "sorted_wrt ?R (filter (\<lambda>e. isDirectory fs (dir @ [e])) ?es)"
    using s by (rule sorted_wrt_filter)
  then show "sorted_wrt (\<lambda>a b. localeCompare a b \<le> 0) (filter (\<lambda>e. isDirectory fs (dir @ [e])) ?es)"
    by (rule sorted_wrt_mono_rel [rotated]) (auto simp: entryCompare_le)
  have "sorted_wrt ?R (filter (\<lambda>e. \<not> isDirectory fs (dir @ [e])) ?es)"
    using s by (rule sorted_wrt_filter)
  then show "sorted_wrt (\<lambda>a b. localeCompare a b \<le> 0) (filter (\<lambda>e. \<not> isDirectory fs (dir @ [e])) ?es)"
    by (rule sorted_wrt_mono_rel [rotated]) (auto simp: entryCompare_le)
qed

subsection \<open>The depth limit\<close>

text \<open>\<open>cutBelow n fs\<close> forgets every path of more than \<open>n\<close> components.\<close>

definition cutBelow :: "nat \<Rightarrow> filesystem \<Rightarrow> filesystem" where
  "cutBelow n fs = filter (\<lambda>(q, e). length q \<le> n) fs"

lemma map_of_cutBelow: "length p \<le> n \<Longrightarrow> map_of (cutBelow n fs) p = map_of fs p"
  by (induction fs) (auto simp: cutBelow_def)

lemma stat_cutBelow: "length p \<le> n \<Longrightarrow> stat (cutBelow n fs) p = stat fs p"
  by (simp add: stat_def map_of_cutBelow)

lemma isDirectory_cutBelow: "length p \<le> n \<Longrightarrow> isDirectory (cutBelow n fs) p = isDirectory fs p"
  by (simp add: isDirectory_def stat_cutBelow)

lemma children_cutBelow:
  "length d < n \<Longrightarrow>
     filter (\<lambda>(p, e). p \<noteq> [] \<and> dirname p = d) (cutBelow n fs)
       = filter (\<lambda>(p, e). p \<noteq> [] \<and> dirname p = d) fs"
  unfolding cutBelow_def filter_filter
  by (rule filter_cong) (auto simp: dirname_def)

lemma readdirSync_cutBelow: "length d < n \<Longrightarrow> readdirSync (cutBelow n fs) d = readdirSync fs d"
  by (simp add: readdirSync_def isDirectory_cutBelow children_cutBelow)

lemma entryCompare_cutBelow:
  "length dir < n \<Longrightarrow> entryCompare lc (cutBelow n fs) dir = entryCompare lc fs dir"
  by (intro ext) (simp add: entryCompare_def isDirectory_cutBelow)

lemma dirEntries_cutBelow:
  "length dir < n \<Longrightarrow> dirEntries lc (cutBelow n fs) dir names = dirEntries lc fs dir names"
  by (simp add: dirEntries_def entryCompare_cutBelow)

lemma generateDirTree_cutBelow:
  "length dir + k < n \<Longrightarrow>
     generateDirTree lc (cutBelow n fs) dir (int k) pre = generateDirTree lc fs dir (int k) pre"
proof (induction k arbitrary: dir pre)
  case 0
  then have "length dir < n" by simp
  then show ?case
    by (simp add: generateDirTree.simps [of _ _ dir 0] readdirSync_cutBelow dirEntries_cutBelow
        isDirectory_cutBelow Let_def split: option.split cong: if_cong)
next
  case (Suc k)
  then have d: "length dir < n" by simp
  have ih: "\<And>e pre'. generateDirTree lc (cutBelow n fs) (dir @ [e]) (int k) pre'
                = generateDirTree lc fs (dir @ [e]) (int k) pre'"
    using Suc.prems by (intro Suc.IH) simp
  have "generateDirTree lc (cutBelow n fs) dir (1 + int k) pre
          = generateDirTree lc fs dir (1 + int k) pre"
    using d
    by (simp add: generateDirTree.simps [of _ _ dir "1 + int k"] readdirSync_cutBelow
        dirEntries_cutBelow isDirectory_cutBelow ih Let_def split: option.split cong: if_cong)
  then show ?case by simp
qed

subsection \<open>The diagnostic\<close>

lemma isDirectory_exists: "isDirectory fs p \<Longrightarrow> existsSync fs p"
  by (simp add: isDirectory_def existsSync_def)

lemma joinWith_prefix: "prefix x (joinWith sep (x # xs))"
  by (cases xs) simp_all

lemma joinWith_suffix: "xs \<noteq> [] \<Longrightarrow> suffix (last xs) (joinWith sep xs)"
proof (induction sep xs rule: joinWith.induct)
  case (3 sep x y ys)
  then have "suffix (last (y # ys)) (joinWith sep (y # ys))" by simp
  then show ?case by (simp add: suffix_append)
qed simp_all

definition forbiddenFound :: "filesystem \<Rightarrow> path \<Rightarrow> string list" where
  "forbiddenFound fs parentDir = filter (\<lambda>folder. isDirectory fs (parentDir @ [folder])) FORBIDDEN_DIRS"

lemma concat_map_if:
  "concat (map (\<lambda>x. if P x then [f x] else []) xs) = map f (filter P xs)"
  by (induction xs) simp_all

text \<open>
  Claim C4, as amended. The scan path is not the root, its parent directory holds at least one
  marker item and at least one forbidden subdirectory, and \<^verbatim>\<open>localeCompare\<close> is consistent.

  The \<^verbatim>\<open>checkRootFolder\<close> that renders a snapshot returns exactly one diagnostic. The first line
  of its message enumerates the forbidden directories found in the parent, which are the
  directories of the parent among the seven forbidden names, in the order of that list; three
  lines of advice and the title of the snapshot follow, and the message ends with the snapshot
  of the parent at depth 2.

  The snapshot of a directory is empty when the directory cannot be listed; otherwise it is the
  lines of the entries of \<open>dirEntries\<close> on the listing of the directory, in that order and joined
  by line breaks: a file is the line of its name after the connector, a directory the line of
  its name with a slash and, while the depth is positive, its own snapshot one level down.
  \<open>dirEntries\<close> of a listing is the listing without the six noise names, every other name kept,
  the directories before the files, each group in the order of \<^verbatim>\<open>localeCompare\<close>. The snapshot is depth-limited: nothing
  more than three levels below the parent changes it.

  The \<^verbatim>\<open>checkRootFolder\<close> of src/checks/rootFolderCheck.ts returns instead one diagnostic for each
  forbidden directory found in the parent, at least one, each naming its directory, with no
  snapshot.
\<close>

theorem checkRootFolder_snapshot:
  assumes nonroot: "dirname startPath \<noteq> startPath"
    and marker: "list_ex (\<lambda>item. existsSync fs (dirname startPath @ [item]))
           [''.cursor'', ''.knowledge'', ''.vscode'', ''package.json'', ''.windsurf'',
            ''.cursorrules'', ''.windsurfrules'', ''tsconfig.json'']"
    and forbidden: "list_ex (\<lambda>folder. isDirectory fs (dirname startPath @ [folder]))
           [''scripts'', ''script'', ''contracts'', ''contract'', ''tests'', ''test'', ''wrappers'']"
    and cmp: "consistent localeCompare"
  shows "checkRootFolder localeCompare fs startPath
         = [\<lparr>type = StructureValidation, file' = absStr startPath,
             message = joinWith newline
               [''Detected forbidden ''
                  @ (if length (forbiddenFound fs (dirname startPath)) = 1
                     then ''directory'' else ''directories'')
                  @ '' '' @ joinWith '', '' (map quoted (forbiddenFound fs (dirname startPath)))
                  @ '' in root '' @ quoted (absStr (dirname startPath)) @ ''.'',
                ''This is a ROOT DIRECTORY ISSUE: '' @ quoted (absStr (dirname startPath))
                  @ '' appears to be a project root directory that contains TON Blueprint project folders directly.'',
                ''This structure is not recommended. Instead, create individual blueprint projects and place contract folders inside those projects.'',
                [],
                ''Snapshot of the ROOT directory '' @ quoted (basename (dirname startPath)) @ '' structure:'',
                generateDirTree localeCompare fs (dirname startPath) 2 []]\<rparr>]
     \<and> forbiddenFound fs (dirname startPath)
         = filter (\<lambda>folder. isDirectory fs (dirname startPath @ [folder]))
             [''scripts'', ''script'', ''contracts'', ''contract'', ''tests'', ''test'', ''wrappers'']
     \<and> forbiddenFound fs (dirname startPath) \<noteq> []
     \<and> generateDirTree localeCompare fs dir depth pre
         = (if depth < 0 then []
            else case readdirSync fs dir of
              None \<Rightarrow> []
            | Some listing \<Rightarrow>
                joinWith newline (concat (map (\<lambda>(index, entry).
                  if isDirectory fs (dir @ [entry])
                  then (pre @ (if Suc index = length (dirEntries localeCompare fs dir listing)
                               then connectorLast else connectorMid) @ entry @ ''/'')
                       # (if 0 < depth
                          then [generateDirTree localeCompare fs (dir @ [entry]) (depth - 1)
                                  (pre @ (if Suc index = length (dirEntries localeCompare fs dir listing)
                                          then prefixLast else prefixMid))]
                          else [])
                  else [pre @ (if Suc index = length (dirEntries localeCompare fs dir listing)
                               then connectorLast else connectorMid) @ entry])
                  (enumerate 0 (dirEntries localeCompare fs dir listing)))))
     \<and> generateDirTree localeCompare (cutBelow (length (dirname startPath) + 3) fs)
             (dirname startPath) 2 []
           = generateDirTree localeCompare fs (dirname startPath) 2 []
     \<and> set (dirEntries localeCompare fs dir names)
         = set names - {''node_modules'', ''.git'', ''.cursor'', ''.windsurf'', ''.vscode'', ''.knowledge''}
     \<and> length (dirEntries localeCompare fs dir names)
         = length (filter (\<lambda>e. e \<notin> {''node_modules'', ''.git'', ''.cursor'', ''.windsurf'', ''.vscode'',
                                        ''.knowledge''}) names)
     \<and> dirEntries localeCompare fs dir names =
           filter (\<lambda>e. isDirectory fs (dir @ [e])) (dirEntries localeCompare fs dir names)
           @ filter (\<lambda>e. \<not> isDirectory fs (dir @ [e])) (dirEntries localeCompare fs dir names)
     \<and> sorted_wrt (\<lambda>a b. localeCompare a b \<le> 0)
           (filter (\<lambda>e. isDirectory fs (dir @ [e])) (dirEntries localeCompare fs dir names))
     \<and> sorted_wrt (\<lambda>a b. localeCompare a b \<le> 0)
           (filter (\<lambda>e. \<not> isDirectory fs (dir @ [e])) (dirEntries localeCompare fs dir names))
     \<and> checkRootFolder_perDir fs startPath
         = map (\<lambda>folder. \<lparr>type = StructureValidation, file' = absStr startPath,
                  message = ''Forbidden directory '' @ quoted folder @ '' found in root ''
                    @ quoted (absStr (dirname startPath))
                    @ ''. This prevents confusion and ensures contracts are created in the correct location. Create individual blueprint projects instead and place ''
                    @ quoted folder @ '' folders inside them.''\<rparr>)
             (forbiddenFound fs (dirname startPath))"
proof -
  let ?parent = "dirname startPath"
  let ?found = "forbiddenFound fs ?parent"
  have same: "filter (\<lambda>folder. existsSync fs (?parent @ [folder]) \<and> isDirectory fs (?parent @ [folder]))
                FORBIDDEN_DIRS = ?found"
    unfolding forbiddenFound_def by (rule filter_cong) (auto dest: isDirectory_exists)
  have members: "?found = filter (\<lambda>folder. isDirectory fs (?parent @ [folder]))
             [''scripts'', ''script'', ''contracts'', ''contract'', ''tests'', ''test'', ''wrappers'']"
    by (simp add: forbiddenFound_def FORBIDDEN_DIRS_def)
  have ne: "?found \<noteq> []"
    unfolding members using forbidden by (auto simp: list_ex_iff filter_empty_conv)
  then have len: "0 < length ?found" by simp
  have mk: "list_ex (\<lambda>item. existsSync fs (?parent @ [item])) MARKER_ITEMS"
    using marker by (simp add: MARKER_ITEMS_def)
  have one: "checkRootFolder localeCompare fs startPath
         = [\<lparr>type = StructureValidation, file' = absStr startPath,
             message = joinWith newline
               [''Detected forbidden ''
                  @ (if length (?found) = 1
                     then ''directory'' else ''directories'')
                  @ '' '' @ joinWith '', '' (map quoted (?found))
                  @ '' in root '' @ quoted (absStr (?parent)) @ ''.'',
                ''This is a ROOT DIRECTORY ISSUE: '' @ quoted (absStr (?parent))
                  @ '' appears to be a project root directory that contains TON Blueprint project folders directly.'',
                ''This structure is not recommended. Instead, create individual blueprint projects and place contract folders inside those projects.'',
                [],
                ''Snapshot of the ROOT directory '' @ quoted (basename (?parent)) @ '' structure:'',
                generateDirTree localeCompare fs (?parent) 2 []]\<rparr>]"
    using nonroot mk len
    by (simp add: checkRootFolder_def Let_def same)
  have render: "generateDirTree localeCompare fs dir depth pre
         = (if depth < 0 then []
            else case readdirSync fs dir of
              None \<Rightarrow> []
            | Some listing \<Rightarrow>
                joinWith newline (concat (map (\<lambda>(index, entry).
                  if isDirectory fs (dir @ [entry])
                  then (pre @ (if Suc index = length (dirEntries localeCompare fs dir listing)
                               then connectorLast else connectorMid) @ entry @ ''/'')
                       # (if 0 < depth
                          then [generateDirTree localeCompare fs (dir @ [entry]) (depth - 1)
                                  (pre @ (if Suc index = length (dirEntries localeCompare fs dir listing)
                                          then prefixLast else prefixMid))]
                          else [])
                  else [pre @ (if Suc index = length (dirEntries localeCompare fs dir listing)
                               then connectorLast else connectorMid) @ entry])
                  (enumerate 0 (dirEntries localeCompare fs dir listing)))))"
    by (subst generateDirTree.simps) (simp add: Let_def split: option.split cong: if_cong)
  have depth: "generateDirTree localeCompare (cutBelow (length ?parent + 3) fs) ?parent 2 []
           = generateDirTree localeCompare fs ?parent 2 []"
    using generateDirTree_cutBelow [of ?parent 2 "length ?parent + 3" localeCompare fs "[]"] by simp
  have noise: "set (dirEntries localeCompare fs dir names)
         = set names - {''node_modules'', ''.git'', ''.cursor'', ''.windsurf'', ''.vscode'', ''.knowledge''}"
    by (simp add: set_dirEntries IGNORED_ITEMS_def)
  have count: "length (dirEntries localeCompare fs dir names)
         = length (filter (\<lambda>e. e \<notin> {''node_modules'', ''.git'', ''.cursor'', ''.windsurf'', ''.vscode'',
                                        ''.knowledge''}) names)"
    by (simp add: dirEntries_def length_arraySort IGNORED_ITEMS_def)
  have per: "checkRootFolder_perDir fs startPath
         = map (\<lambda>folder. \<lparr>type = StructureValidation, file' = absStr startPath,
                  message = ''Forbidden directory '' @ quoted folder @ '' found in root ''
                    @ quoted (absStr (?parent))
                    @ ''. This prevents confusion and ensures contracts are created in the correct location. Create individual blueprint projects instead and place ''
                    @ quoted folder @ '' folders inside them.''\<rparr>)
             (?found)"
    using nonroot mk
    by (simp add: checkRootFolder_perDir_def Let_def concat_map_if same)
  show ?thesis
    using one members ne render depth noise count per
      dirEntries_dirs_first [OF cmp, of fs dir names]
      dirEntries_alphabetical [OF cmp, of fs dir names]
    by blast
qed

definition demoCompare :: "string \<Rightarrow> string \<Rightarrow> int" where
  "demoCompare a b = (if a < b then - 1 else if a = b then 0 else 1)"

definition demoFs :: filesystem where
  "demoFs = [([''ws''], Directory), ([''ws'', ''package.json''], File ''{}''),
     ([''ws'', ''proj''], Directory), ([''ws'', ''contracts''], Directory),
     ([''ws'', ''a.txt''], File []), ([''ws'', ''node_modules''], Directory),
     ([''ws'', ''contracts'', ''My.fc''], File []), ([''ws'', ''scripts''], Directory)]"

lemma consistent_demoCompare: "consistent demoCompare"
  by (auto simp: consistent_def demoCompare_def)

lemma demo_snapshot:
  "generateDirTree demoCompare demoFs [''ws''] 2 []
     = joinWith newline
         [connectorMid @ ''contracts/'',
          prefixMid @ connectorLast @ ''My.fc'',
          connectorMid @ ''proj/'',
          [],
          connectorMid @ ''scripts/'',
          [],
          connectorMid @ ''a.txt'',
          connectorLast @ ''package.json'']"
  by code_simp

theorem checkRootFolder_snapshot_witness:
  "dirname [''ws'', ''proj''] \<noteq> [''ws'', ''proj'']
   \<and> list_ex (\<lambda>item. existsSync demoFs (dirname [''ws'', ''proj''] @ [item]))
           [''.cursor'', ''.knowledge'', ''.vscode'', ''package.json'', ''.windsurf'',
            ''.cursorrules'', ''.windsurfrules'', ''tsconfig.json'']
   \<and> list_ex (\<lambda>folder. isDirectory demoFs (dirname [''ws'', ''proj''] @ [folder]))
           [''scripts'', ''script'', ''contracts'', ''contract'', ''tests'', ''test'', ''wrappers'']
   \<and> consistent demoCompare
   \<and> checkRootFolder demoCompare demoFs [''ws'', ''proj'']
      = [\<lparr>type = StructureValidation, file' = ''/ws/proj'',
          message = joinWith newline
            [''Detected forbidden directories '' @ quoted ''scripts'' @ '', '' @ quoted ''contracts''
               @ '' in root '' @ quoted ''/ws'' @ ''.'',
             ''This is a ROOT DIRECTORY ISSUE: '' @ quoted ''/ws''
               @ '' appears to be a project root directory that contains TON Blueprint project folders directly.'',
             ''This structure is not recommended. Instead, create individual blueprint projects and place contract folders inside those projects.'',
             [],
             ''Snapshot of the ROOT directory '' @ quoted ''ws'' @ '' structure:'',
             connectorMid @ ''contracts/'',
             prefixMid @ connectorLast @ ''My.fc'',
             connectorMid @ ''proj/'',
             [],
             connectorMid @ ''scripts/'',
             [],
             connectorMid @ ''a.txt'',
             connectorLast @ ''package.json'']\<rparr>]
   \<and> readdirSync demoFs [''ws'']
      = Some [''package.json'', ''proj'', ''contracts'', ''a.txt'', ''node_modules'', ''scripts'']
   \<and> dirEntries demoCompare demoFs [''ws'']
        [''package.json'', ''proj'', ''contracts'', ''a.txt'', ''node_modules'', ''scripts'']
      = [''contracts'', ''proj'', ''scripts'', ''a.txt'', ''package.json'']
   \<and> length (checkRootFolder_perDir demoFs [''ws'', ''proj'']) = 2"
proof -
  have h1: "dirname [''ws'', ''proj''] \<noteq> [''ws'', ''proj'']"
    by (simp add: dirname_def)
  have h2: "list_ex (\<lambda>item. existsSync demoFs (dirname [''ws'', ''proj''] @ [item]))
           [''.cursor'', ''.knowledge'', ''.vscode'', ''package.json'', ''.windsurf'',
            ''.cursorrules'', ''.windsurfrules'', ''tsconfig.json'']"
    by code_simp
  have h3: "list_ex (\<lambda>folder. isDirectory demoFs (dirname [''ws'', ''proj''] @ [folder]))
           [''scripts'', ''script'', ''contracts'', ''contract'', ''tests'', ''test'', ''wrappers'']"
    by code_simp
  have f: "forbiddenFound demoFs [''ws''] = [''scripts'', ''contracts'']"
    by code_simp
  have r: "readdirSync demoFs [''ws'']
      = Some [''package.json'', ''proj'', ''contracts'', ''a.txt'', ''node_modules'', ''scripts'']"
    by code_simp
  have d: "dirEntries demoCompare demoFs [''ws'']
        [''package.json'', ''proj'', ''contracts'', ''a.txt'', ''node_modules'', ''scripts'']
      = [''contracts'', ''proj'', ''scripts'', ''a.txt'', ''package.json'']"
    by code_simp
  have p: "dirname [''ws'', ''proj''] = [''ws'']"
    by (simp add: dirname_def)
  have a: "absStr [''ws'', ''proj''] = ''/ws/proj''" "absStr [''ws''] = ''/ws''"
    "basename [''ws''] = ''ws''"
    by code_simp+
  note inst = checkRootFolder_snapshot [OF h1 h2 h3 consistent_demoCompare, of "[]" 0 "[]" "[]"]
  from inst have "checkRootFolder demoCompare demoFs [''ws'', ''proj'']
      = [\<lparr>type = StructureValidation, file' = absStr [''ws'', ''proj''],
          message = joinWith newline
            [''Detected forbidden ''
               @ (if length (forbiddenFound demoFs (dirname [''ws'', ''proj''])) = 1
                  then ''directory'' else ''directories'')
               @ '' '' @ joinWith '', '' (map quoted (forbiddenFound demoFs (dirname [''ws'', ''proj''])))
               @ '' in root '' @ quoted (absStr (dirname [''ws'', ''proj''])) @ ''.'',
             ''This is a ROOT DIRECTORY ISSUE: '' @ quoted (absStr (dirname [''ws'', ''proj'']))
               @ '' appears to be a project root directory that contains TON Blueprint project folders directly.'',
             ''This structure is not recommended. Instead, create individual blueprint projects and place contract folders inside those projects.'',
             [],
             ''Snapshot of the ROOT directory '' @ quoted (basename (dirname [''ws'', ''proj''])) @ '' structure:'',
             generateDirTree demoCompare demoFs (dirname [''ws'', ''proj'']) 2 []]\<rparr>]"
    by blast
  then have one: "checkRootFolder demoCompare demoFs [''ws'', ''proj'']
      = [\<lparr>type = StructureValidation, file' = ''/ws/proj'',
          message = joinWith newline
            [''Detected forbidden directories '' @ quoted ''scripts'' @ '', '' @ quoted ''contracts''
               @ '' in root '' @ quoted ''/ws'' @ ''.'',
             ''This is a ROOT DIRECTORY ISSUE: '' @ quoted ''/ws''
               @ '' appears to be a project root directory that contains TON Blueprint project folders directly.'',
             ''This structure is not recommended. Instead, create individual blueprint projects and place contract folders inside those projects.'',
             [],
             ''Snapshot of the ROOT directory '' @ quoted ''ws'' @ '' structure:'',
             connectorMid @ ''contracts/'',
             prefixMid @ connectorLast @ ''My.fc'',
             connectorMid @ ''proj/'',
             [],
             connectorMid @ ''scripts/'',
             [],
             connectorMid @ ''a.txt'',
             connectorLast @ ''package.json'']\<rparr>]"
    by (simp add: p f a demo_snapshot)
  from inst have "checkRootFolder_perDir demoFs [''ws'', ''proj'']
      = map (\<lambda>folder. \<lparr>type = StructureValidation, file' = absStr [''ws'', ''proj''],
                  message = ''Forbidden directory '' @ quoted folder @ '' found in root ''
                    @ quoted (absStr (dirname [''ws'', ''proj'']))
                    @ ''. This prevents confusion and ensures contracts are created in the correct location. Create individual blueprint projects instead and place ''
                    @ quoted folder @ '' folders inside them.''\<rparr>)
             (forbiddenFound demoFs (dirname [''ws'', ''proj'']))"
    by blast
  then have two: "length (checkRootFolder_perDir demoFs [''ws'', ''proj'']) = 2"
    by (simp add: p f)
  show ?thesis
    using h1 h2 h3 r d one two consistent_demoCompare by simp
qed

text \<open>
  The claim as first stated, on this filesystem: the parent \<^verbatim>\<open>/ws\<close> holds \<^verbatim>\<open>package.json\<close> and the
  directories \<^verbatim>\<open>scripts\<close> and \<^verbatim>\<open>contracts\<close>, and the \<^verbatim>\<open>checkRootFolder\<close> of
  src/checks/rootFolderCheck.ts returns two diagnostics, neither with a snapshot.
\<close>

theorem checkRootFolder_perDir_two_diagnostics:
  "existsSync demoFs [''ws'', ''package.json'']
   \<and> isDirectory demoFs [''ws'', ''scripts'']
   \<and> isDirectory demoFs [''ws'', ''contracts'']
   \<and> checkRootFolder_perDir demoFs [''ws'', ''proj'']
      = [\<lparr>type = StructureValidation, file' = ''/ws/proj'',
          message = ''Forbidden directory '' @ quoted ''scripts'' @ '' found in root ''
            @ quoted ''/ws''
            @ ''. This prevents confusion and ensures contracts are created in the correct location. Create individual blueprint projects instead and place ''
            @ quoted ''scripts'' @ '' folders inside them.''\<rparr>,
         \<lparr>type = StructureValidation, file' = ''/ws/proj'',
          message = ''Forbidden directory '' @ quoted ''contracts'' @ '' found in root ''
            @ quoted ''/ws''
            @ ''. This prevents confusion and ensures contracts are created in the correct location. Create individual blueprint projects instead and place ''
            @ quoted ''contracts'' @ '' folders inside them.''\<rparr>]"
  by code_simp

section \<open>Duplicate-name detector (src/rules/duplicateContractNames.ts)\<close>

text \<open>
  The pattern is \<^verbatim>\<open>contracts/**/*.*\<close> below the project root, with \<^verbatim>\<open>nodir\<close> and no \<^verbatim>\<open>ignore\<close>.
  The project path is plain: \<open>contractsPattern\<close> takes its segments as literal segments.
  \<open>addToNamesMap\<close> is the body of the first loop, \<open>duplicateErrors\<close> the body of the second.
\<close>

definition normalizeContractName :: "path \<Rightarrow> string" where
  "normalizeContractName filename =
     (let baseNameWithExt = basename filename;
          baseName = stripExt baseNameWithExt (extname baseNameWithExt)
      in filter (\<lambda>c. c \<noteq> CHR ''_'') (toLowerCase baseName))"

definition contractsPattern :: "path \<Rightarrow> globpat" where
  "contractsPattern projectRoot = map Lit projectRoot @ [Lit ''contracts'', GlobStar, StarDotStar]"

definition duplicateScanFiles :: "filesystem \<Rightarrow> path \<Rightarrow> path list" where
  "duplicateScanFiles fs projectRoot =
     filter (isFile fs) (glob fs [contractsPattern projectRoot] \<lparr>nodir = True, ignore = []\<rparr>)"

definition addToNamesMap :: "(string \<times> path list) list \<Rightarrow> path \<Rightarrow> (string \<times> path list) list" where
  "addToNamesMap m fullPath =
     (let normalizedName = normalizeContractName fullPath;
          m1 = (if map_of m normalizedName = None then mapSet m normalizedName [] else m)
      in case map_of m1 normalizedName of
           None \<Rightarrow> m1
         | Some filePaths \<Rightarrow> mapSet m1 normalizedName (filePaths @ [fullPath]))"

definition duplicateMessage :: "string list \<Rightarrow> string" where
  "duplicateMessage relativeFilePaths =
     ''Duplicate filename detected in '' @ quoted ''contracts'' @ '' directory: ''
       @ joinWith '', '' relativeFilePaths
       @ ''. Filenames should be unique, ignoring case, underscores, and extensions.''"

definition duplicateErrors :: "path \<Rightarrow> path list \<Rightarrow> LinterError list" where
  "duplicateErrors projectRoot filePaths =
     (if length filePaths > 1
      then (let relativeFilePaths = map (\<lambda>fp. relStr (relative projectRoot fp)) filePaths
            in map (\<lambda>filePath. \<lparr>type = NamingConsistency, file' = filePath,
                                  message = duplicateMessage relativeFilePaths\<rparr>)
                 relativeFilePaths)
      else [])"

definition lintDuplicateContractNames :: "filesystem \<Rightarrow> path \<Rightarrow> LinterError list" where
  "lintDuplicateContractNames fs projectRoot =
     (let normalizedNamesMap = foldl addToNamesMap [] (duplicateScanFiles fs projectRoot)
      in concat (map (\<lambda>(normalizedName, filePaths). duplicateErrors projectRoot filePaths)
                   normalizedNamesMap))"

subsection \<open>The groups of the map\<close>

text \<open>
  \<open>firstSeen\<close> lists the distinct elements in the order of their first occurrence, the order of
  the keys of a \<^verbatim>\<open>Map\<close>. \<open>sameKey files key\<close> is the list of the scanned files with that key.
\<close>

definition firstSeen :: "'a list \<Rightarrow> 'a list" where
  "firstSeen xs = rev (remdups (rev xs))"

lemma firstSeen_snoc:
  "firstSeen (xs @ [x]) = (if x \<in> set xs then firstSeen xs else firstSeen xs @ [x])"
  by (simp add: firstSeen_def)

lemma set_firstSeen: "set (firstSeen xs) = set xs"
  by (simp add: firstSeen_def)

lemma distinct_firstSeen: "distinct (firstSeen xs)"
  by (simp add: firstSeen_def)

definition groupsOf :: "('a \<Rightarrow> 'k) \<Rightarrow> 'a list \<Rightarrow> ('k \<times> 'a list) list" where
  "groupsOf key xs = map (\<lambda>k. (k, filter (\<lambda>x. key x = k) xs)) (firstSeen (map key xs))"

lemma addToNamesMap_groups:
  "addToNamesMap (groupsOf normalizeContractName xs) x = groupsOf normalizeContractName (xs @ [x])"
proof (cases "normalizeContractName x \<in> set (map normalizeContractName xs)")
  case True
  let ?k0 = "normalizeContractName x"
  let ?ks = "firstSeen (map normalizeContractName xs)"
  have in_ks: "?k0 \<in> set ?ks" using True by (simp add: set_firstSeen)
  have look: "map_of (groupsOf normalizeContractName xs) ?k0
                = Some (filter (\<lambda>y. normalizeContractName y = ?k0) xs)"
    unfolding groupsOf_def using in_ks by (simp add: map_of_keyed)
  have "addToNamesMap (groupsOf normalizeContractName xs) x
          = mapSet (groupsOf normalizeContractName xs) ?k0
              (filter (\<lambda>y. normalizeContractName y = ?k0) xs @ [x])"
    using look by (simp add: addToNamesMap_def Let_def)
  also have "\<dots> = map (\<lambda>k. (k, if k = ?k0 then filter (\<lambda>y. normalizeContractName y = ?k0) xs @ [x]
                                 else filter (\<lambda>y. normalizeContractName y = k) xs)) ?ks"
    unfolding groupsOf_def by (rule mapSet_keyed [OF in_ks distinct_firstSeen])
  also have "\<dots> = map (\<lambda>k. (k, filter (\<lambda>y. normalizeContractName y = k) (xs @ [x]))) ?ks"
    by (intro map_cong) auto
  also have "\<dots> = groupsOf normalizeContractName (xs @ [x])"
    using True by (simp add: groupsOf_def firstSeen_snoc)
  finally show ?thesis .
next
  case False
  let ?k0 = "normalizeContractName x"
  let ?ks = "firstSeen (map normalizeContractName xs)"
  let ?m = "groupsOf normalizeContractName xs"
  have not_ks: "?k0 \<notin> set ?ks" using False by (simp add: set_firstSeen)
  have keys: "fst ` set ?m = set ?ks"
    by (force simp: groupsOf_def)
  have fresh: "?k0 \<notin> fst ` set ?m" using not_ks keys by simp
  have look: "map_of ?m ?k0 = None"
    unfolding groupsOf_def using not_ks by (simp add: map_of_keyed)
  have m1: "mapSet ?m ?k0 [] = ?m @ [(?k0, [])]"
    using fresh by (rule mapSet_fresh)
  have look1: "map_of (?m @ [(?k0, [])]) ?k0 = Some []"
    using look by (simp add: map_add_def)
  have "addToNamesMap ?m x = mapSet (?m @ [(?k0, [])]) ?k0 ([] @ [x])"
    using look m1 look1 by (simp add: addToNamesMap_def Let_def)
  also have "\<dots> = ?m @ [(?k0, [x])]"
    using mapSet_snoc [OF fresh] by simp
  also have "\<dots> = groupsOf normalizeContractName (xs @ [x])"
  proof -
    have "map (\<lambda>k. (k, filter (\<lambda>y. normalizeContractName y = k) (xs @ [x]))) ?ks
            = map (\<lambda>k. (k, filter (\<lambda>y. normalizeContractName y = k) xs)) ?ks"
      using not_ks by (intro map_cong) auto
    moreover have "\<forall>y\<in>set xs. normalizeContractName y \<noteq> ?k0"
      using False by (metis image_eqI set_map)
    then have "filter (\<lambda>y. normalizeContractName y = ?k0) xs = []"
      by (simp add: filter_empty_conv)
    ultimately show ?thesis
      using False by (simp add: groupsOf_def firstSeen_snoc)
  qed
  finally show ?thesis .
qed

lemma foldl_addToNamesMap:
  "foldl addToNamesMap [] xs = groupsOf normalizeContractName xs"
proof (induction xs rule: rev_induct)
  case Nil
  then show ?case by (simp add: groupsOf_def firstSeen_def)
next
  case (snoc x xs)
  then show ?case by (simp add: addToNamesMap_groups)
qed

definition sameKey :: "path list \<Rightarrow> string \<Rightarrow> path list" where
  "sameKey files key = filter (\<lambda>f. normalizeContractName f = key) files"

text \<open>
  \<open>duplicateDiagnostic projectRoot members f\<close> is the diagnostic of the file \<open>f\<close> of a group
  \<open>members\<close>, with its text written out: the file is named by its path relative to the project,
  and the message lists the relative paths of all the members, separated by a comma and a space.
\<close>

definition duplicateDiagnostic :: "path \<Rightarrow> path list \<Rightarrow> path \<Rightarrow> LinterError" where
  "duplicateDiagnostic projectRoot members f =
     \<lparr>type = NamingConsistency, file' = relStr (relative projectRoot f),
      message = ''Duplicate filename detected in '' @ quoted ''contracts'' @ '' directory: ''
        @ joinWith '', '' (map (\<lambda>g. relStr (relative projectRoot g)) members)
        @ ''. Filenames should be unique, ignoring case, underscores, and extensions.''\<rparr>"

definition specDuplicates :: "path \<Rightarrow> path list \<Rightarrow> LinterError list" where
  "specDuplicates projectRoot files =
     concat (map (\<lambda>key. if 2 \<le> length (sameKey files key)
                         then map (duplicateDiagnostic projectRoot (sameKey files key)) (sameKey files key)
                         else [])
               (firstSeen (map normalizeContractName files)))"

lemma duplicateErrors_spec:
  "duplicateErrors projectRoot members =
     (if 2 \<le> length members then map (duplicateDiagnostic projectRoot members) members else [])"
  by (auto simp: duplicateErrors_def duplicateMessage_def duplicateDiagnostic_def Let_def)

lemma lintDuplicateContractNames_spec:
  "lintDuplicateContractNames fs projectRoot = specDuplicates projectRoot (duplicateScanFiles fs projectRoot)"
  by (simp add: lintDuplicateContractNames_def foldl_addToNamesMap groupsOf_def specDuplicates_def
      sameKey_def duplicateErrors_spec comp_def cong: if_cong)

lemma distinct_duplicateScanFiles: "distinct (duplicateScanFiles fs projectRoot)"
  by (simp add: duplicateScanFiles_def distinct_glob)

lemma specDuplicates_member:
  assumes "f \<in> set files" and "2 \<le> length (sameKey files (normalizeContractName f))"
  shows "duplicateDiagnostic projectRoot (sameKey files (normalizeContractName f)) f
           \<in> set (specDuplicates projectRoot files)"
proof -
  have k: "normalizeContractName f \<in> set (firstSeen (map normalizeContractName files))"
    using assms(1) by (simp add: set_firstSeen)
  have m: "f \<in> set (sameKey files (normalizeContractName f))"
    using assms(1) by (simp add: sameKey_def)
  show ?thesis
    unfolding specDuplicates_def
    using k m assms(2) by (auto intro!: bexI [of _ "normalizeContractName f"])
qed

lemma specDuplicates_only:
  assumes "e \<in> set (specDuplicates projectRoot files)"
  shows "\<exists>f. f \<in> set files \<and> 2 \<le> length (sameKey files (normalizeContractName f))
           \<and> e = duplicateDiagnostic projectRoot (sameKey files (normalizeContractName f)) f"
proof -
  from assms obtain key f where "2 \<le> length (sameKey files key)"
    and f: "f \<in> set (sameKey files key)"
    and e: "e = duplicateDiagnostic projectRoot (sameKey files key) f"
    unfolding specDuplicates_def by (auto split: if_splits)
  moreover from f have "f \<in> set files" "normalizeContractName f = key"
    by (simp_all add: sameKey_def)
  ultimately show ?thesis by blast
qed

lemma hidden_prefix: "hidden name \<longleftrightarrow> prefix ''.'' name"
  by (cases name) (auto simp: hidden_def)

text \<open>
  The files of the scan: the files below \<^verbatim>\<open>contracts\<close>, at any depth, whose name holds a dot, where
  neither the name nor a directory on the way starts with a dot.
\<close>

lemma duplicateScanFiles_iff:
  "p \<in> set (duplicateScanFiles fs projectRoot) \<longleftrightarrow>
     isFile fs p
     \<and> (\<exists>sub name. p = projectRoot @ ''contracts'' # sub @ [name]
           \<and> list_all (\<lambda>s. \<not> prefix ''.'' s) sub \<and> \<not> prefix ''.'' name \<and> CHR ''.'' \<in> set name)"
proof -
  have "matchPath False (contractsPattern projectRoot) p \<longleftrightarrow>
          (\<exists>sub name. p = projectRoot @ ''contracts'' # sub @ [name]
           \<and> list_all (\<lambda>s. \<not> hidden s) sub \<and> \<not> hidden name \<and> CHR ''.'' \<in> set name)"
    using matchPath_literal_prefix [of False "projectRoot @ [''contracts'']" "[GlobStar, StarDotStar]" p]
      matchPath_any_depth [of StarDotStar False]
    by (auto simp: contractsPattern_def)
  then show ?thesis
    using isFile_listed [of fs p]
    by (auto simp: duplicateScanFiles_def glob_def hidden_prefix)
qed

lemma sublist_embed:
  assumes "sublist x j"
  shows "sublist x (p @ j @ s)"
proof -
  from assms obtain a b where "j = a @ x @ b"
    by (auto simp: sublist_def)
  then have "p @ j @ s = (p @ a) @ x @ (b @ s)"
    by simp
  then show ?thesis
    unfolding sublist_def by blast
qed

lemma sublist_joinWith: "x \<in> set xs \<Longrightarrow> sublist x (joinWith sep xs)"
proof (induction sep xs rule: joinWith.induct)
  case (1 sep)
  then show ?case by simp
next
  case (2 sep y)
  then show ?case by simp
next
  case (3 sep y z zs)
  show ?case
  proof (cases "x = y")
    case True
    then show ?thesis by simp
  next
    case False
    then have "sublist x (joinWith sep (z # zs))" using 3 by simp
    then have "sublist x ((y @ sep) @ joinWith sep (z # zs) @ [])"
      by (rule sublist_embed)
    then show ?thesis by simp
  qed
qed

text \<open>
  Claim C2, as amended. The project path holds no glob syntax. The scan of the detector returns,
  each once, the files below the \<^verbatim>\<open>contracts\<close> directory of the project, at any depth, whose name
  holds a dot, where neither the name nor a directory between \<^verbatim>\<open>contracts\<close> and the file starts
  with a dot. The detector gives every file the key lowercase(stem) without its underscores.
  For every key, in the order of first occurrence, that two or more files of the scan share, it
  emits one diagnostic for each member file, named by its path relative to the project, whose
  message lists the relative paths of all the members of the key; for a key with a single file
  it emits nothing. So a file of the scan whose key is shared has its diagnostic, every
  diagnostic is the one of a file of the scan whose key is shared, and the path of every member
  is part of the message.
\<close>

theorem lintDuplicateContractNames_groups:
  assumes plain: "plainPath projectRoot"
  shows
  "(p \<in> set (duplicateScanFiles fs projectRoot) \<longleftrightarrow>
      isFile fs p
      \<and> (\<exists>sub name. p = projectRoot @ ''contracts'' # sub @ [name]
            \<and> list_all (\<lambda>s. \<not> prefix ''.'' s) sub \<and> \<not> prefix ''.'' name \<and> CHR ''.'' \<in> set name))
   \<and> distinct (duplicateScanFiles fs projectRoot)
   \<and> normalizeContractName f
       = filter (\<lambda>c. c \<noteq> CHR ''_'') (toLowerCase (stripExt (basename f) (extname (basename f))))
   \<and> lintDuplicateContractNames fs projectRoot
       = concat (map (\<lambda>key.
           if 2 \<le> length (sameKey (duplicateScanFiles fs projectRoot) key)
           then map (\<lambda>member.
                  \<lparr>type = NamingConsistency, file' = relStr (relative projectRoot member),
                   message = ''Duplicate filename detected in '' @ quoted ''contracts'' @ '' directory: ''
                     @ joinWith '', '' (map (\<lambda>g. relStr (relative projectRoot g))
                                          (sameKey (duplicateScanFiles fs projectRoot) key))
                     @ ''. Filenames should be unique, ignoring case, underscores, and extensions.''\<rparr>)
                  (sameKey (duplicateScanFiles fs projectRoot) key)
           else [])
           (firstSeen (map normalizeContractName (duplicateScanFiles fs projectRoot))))
   \<and> (f \<in> set (duplicateScanFiles fs projectRoot)
        \<and> 2 \<le> length (sameKey (duplicateScanFiles fs projectRoot) (normalizeContractName f))
       \<longrightarrow> \<lparr>type = NamingConsistency, file' = relStr (relative projectRoot f),
             message = ''Duplicate filename detected in '' @ quoted ''contracts'' @ '' directory: ''
               @ joinWith '', '' (map (\<lambda>g. relStr (relative projectRoot g))
                                    (sameKey (duplicateScanFiles fs projectRoot) (normalizeContractName f)))
               @ ''. Filenames should be unique, ignoring case, underscores, and extensions.''\<rparr>
           \<in> set (lintDuplicateContractNames fs projectRoot))
   \<and> (e \<in> set (lintDuplicateContractNames fs projectRoot)
       \<longrightarrow> (\<exists>g. g \<in> set (duplicateScanFiles fs projectRoot)
              \<and> 2 \<le> length (sameKey (duplicateScanFiles fs projectRoot) (normalizeContractName g))
              \<and> e = \<lparr>type = NamingConsistency, file' = relStr (relative projectRoot g),
                     message = ''Duplicate filename detected in '' @ quoted ''contracts'' @ '' directory: ''
                       @ joinWith '', '' (map (\<lambda>g. relStr (relative projectRoot g))
                                            (sameKey (duplicateScanFiles fs projectRoot) (normalizeContractName g)))
                       @ ''. Filenames should be unique, ignoring case, underscores, and extensions.''\<rparr>
              \<and> list_all (\<lambda>member. sublist (relStr (relative projectRoot member)) (message e))
                    (sameKey (duplicateScanFiles fs projectRoot) (normalizeContractName g))))"
proof -
  let ?files = "duplicateScanFiles fs projectRoot"
  have 0: "p \<in> set ?files \<longleftrightarrow>
      isFile fs p
      \<and> (\<exists>sub name. p = projectRoot @ ''contracts'' # sub @ [name]
            \<and> list_all (\<lambda>s. \<not> prefix ''.'' s) sub \<and> \<not> prefix ''.'' name \<and> CHR ''.'' \<in> set name)"
    by (rule duplicateScanFiles_iff)
  have 1: "lintDuplicateContractNames fs projectRoot
       = concat (map (\<lambda>key.
           if 2 \<le> length (sameKey ?files key)
           then map (\<lambda>member.
                  \<lparr>type = NamingConsistency, file' = relStr (relative projectRoot member),
                   message = ''Duplicate filename detected in '' @ quoted ''contracts'' @ '' directory: ''
                     @ joinWith '', '' (map (\<lambda>g. relStr (relative projectRoot g)) (sameKey ?files key))
                     @ ''. Filenames should be unique, ignoring case, underscores, and extensions.''\<rparr>)
                  (sameKey ?files key)
           else [])
           (firstSeen (map normalizeContractName ?files)))"
    unfolding lintDuplicateContractNames_spec specDuplicates_def duplicateDiagnostic_def ..
  have 3: "normalizeContractName f
       = filter (\<lambda>c. c \<noteq> CHR ''_'') (toLowerCase (stripExt (basename f) (extname (basename f))))"
    by (simp add: normalizeContractName_def Let_def)
  have 4: "f \<in> set ?files \<and> 2 \<le> length (sameKey ?files (normalizeContractName f))
       \<longrightarrow> \<lparr>type = NamingConsistency, file' = relStr (relative projectRoot f),
             message = ''Duplicate filename detected in '' @ quoted ''contracts'' @ '' directory: ''
               @ joinWith '', '' (map (\<lambda>g. relStr (relative projectRoot g))
                                    (sameKey ?files (normalizeContractName f)))
               @ ''. Filenames should be unique, ignoring case, underscores, and extensions.''\<rparr>
           \<in> set (lintDuplicateContractNames fs projectRoot)"
    using specDuplicates_member [of f ?files projectRoot]
    unfolding lintDuplicateContractNames_spec duplicateDiagnostic_def by blast
  have 6: "list_all (\<lambda>member. sublist (relStr (relative projectRoot member))
                       (message (duplicateDiagnostic projectRoot members g))) members"
    for members g
  proof -
    have "sublist (relStr (relative projectRoot member))
            (message (duplicateDiagnostic projectRoot members g))"
      if "member \<in> set members" for member
    proof -
      from that have "relStr (relative projectRoot member)
                        \<in> set (map (\<lambda>g. relStr (relative projectRoot g)) members)"
        by simp
      then have "sublist (relStr (relative projectRoot member))
                   (joinWith '', '' (map (\<lambda>g. relStr (relative projectRoot g)) members))"
        by (rule sublist_joinWith)
      then have "sublist (relStr (relative projectRoot member))
                   ((''Duplicate filename detected in '' @ quoted ''contracts'' @ '' directory: '')
                    @ joinWith '', '' (map (\<lambda>g. relStr (relative projectRoot g)) members)
                    @ ''. Filenames should be unique, ignoring case, underscores, and extensions.'')"
        by (rule sublist_embed)
      then show ?thesis
        by (simp add: duplicateDiagnostic_def)
    qed
    then show ?thesis by (simp add: list_all_iff)
  qed
  have 5: "e \<in> set (lintDuplicateContractNames fs projectRoot)
       \<longrightarrow> (\<exists>g. g \<in> set ?files
              \<and> 2 \<le> length (sameKey ?files (normalizeContractName g))
              \<and> e = \<lparr>type = NamingConsistency, file' = relStr (relative projectRoot g),
                     message = ''Duplicate filename detected in '' @ quoted ''contracts'' @ '' directory: ''
                       @ joinWith '', '' (map (\<lambda>g. relStr (relative projectRoot g))
                                            (sameKey ?files (normalizeContractName g)))
                       @ ''. Filenames should be unique, ignoring case, underscores, and extensions.''\<rparr>
              \<and> list_all (\<lambda>member. sublist (relStr (relative projectRoot member)) (message e))
                    (sameKey ?files (normalizeContractName g)))"
  proof
    assume "e \<in> set (lintDuplicateContractNames fs projectRoot)"
    then obtain g where g: "g \<in> set ?files"
      and n: "2 \<le> length (sameKey ?files (normalizeContractName g))"
      and e: "e = duplicateDiagnostic projectRoot (sameKey ?files (normalizeContractName g)) g"
      using specDuplicates_only [of e projectRoot ?files]
      unfolding lintDuplicateContractNames_spec by blast
    have "list_all (\<lambda>member. sublist (relStr (relative projectRoot member)) (message e))
            (sameKey ?files (normalizeContractName g))"
      unfolding e by (rule 6)
    then show "\<exists>g. g \<in> set ?files
              \<and> 2 \<le> length (sameKey ?files (normalizeContractName g))
              \<and> e = \<lparr>type = NamingConsistency, file' = relStr (relative projectRoot g),
                     message = ''Duplicate filename detected in '' @ quoted ''contracts'' @ '' directory: ''
                       @ joinWith '', '' (map (\<lambda>g. relStr (relative projectRoot g))
                                            (sameKey ?files (normalizeContractName g)))
                       @ ''. Filenames should be unique, ignoring case, underscores, and extensions.''\<rparr>
              \<and> list_all (\<lambda>member. sublist (relStr (relative projectRoot member)) (message e))
                    (sameKey ?files (normalizeContractName g))"
      using g n e unfolding duplicateDiagnostic_def by blast
  qed
  show ?thesis
    using 0 1 3 4 5 distinct_duplicateScanFiles [of fs projectRoot] by blast
qed

definition jettonFs :: filesystem where
  "jettonFs = [([''p''], Directory), ([''p'', ''contracts''], Directory),
     ([''p'', ''contracts'', ''MyJetton.fc''], File []),
     ([''p'', ''contracts'', ''other.fc''], File []),
     ([''p'', ''contracts'', ''my_jetton.tact''], File [])]"

lemma jetton_eval:
  "duplicateScanFiles jettonFs [''p'']
     = [[''p'', ''contracts'', ''MyJetton.fc''], [''p'', ''contracts'', ''other.fc''],
        [''p'', ''contracts'', ''my_jetton.tact'']]"
  "map normalizeContractName (duplicateScanFiles jettonFs [''p'']) = [''myjetton'', ''other'', ''myjetton'']"
  by code_simp+

theorem lintDuplicateContractNames_groups_witness:
  "plainPath [''p'']
   \<and> duplicateScanFiles jettonFs [''p'']
       = [[''p'', ''contracts'', ''MyJetton.fc''], [''p'', ''contracts'', ''other.fc''],
          [''p'', ''contracts'', ''my_jetton.tact'']]
   \<and> map normalizeContractName (duplicateScanFiles jettonFs [''p'']) = [''myjetton'', ''other'', ''myjetton'']
   \<and> lintDuplicateContractNames jettonFs [''p'']
       = [\<lparr>type = NamingConsistency, file' = ''contracts/MyJetton.fc'',
           message = ''Duplicate filename detected in '' @ quoted ''contracts''
             @ '' directory: contracts/MyJetton.fc, contracts/my_jetton.tact. Filenames should be unique, ignoring case, underscores, and extensions.''\<rparr>,
          \<lparr>type = NamingConsistency, file' = ''contracts/my_jetton.tact'',
           message = ''Duplicate filename detected in '' @ quoted ''contracts''
             @ '' directory: contracts/MyJetton.fc, contracts/my_jetton.tact. Filenames should be unique, ignoring case, underscores, and extensions.''\<rparr>]"
proof -
  have plain: "plainPath [''p'']"
    by code_simp
  have g: "concat (map (\<lambda>key.
           if 2 \<le> length (sameKey (duplicateScanFiles jettonFs [''p'']) key)
           then map (\<lambda>member.
                  \<lparr>type = NamingConsistency, file' = relStr (relative [''p''] member),
                   message = ''Duplicate filename detected in '' @ quoted ''contracts'' @ '' directory: ''
                     @ joinWith '', '' (map (\<lambda>g. relStr (relative [''p''] g))
                                          (sameKey (duplicateScanFiles jettonFs [''p'']) key))
                     @ ''. Filenames should be unique, ignoring case, underscores, and extensions.''\<rparr>)
                  (sameKey (duplicateScanFiles jettonFs [''p'']) key)
           else [])
           (firstSeen (map normalizeContractName (duplicateScanFiles jettonFs [''p'']))))
     = [\<lparr>type = NamingConsistency, file' = ''contracts/MyJetton.fc'',
           message = ''Duplicate filename detected in '' @ quoted ''contracts''
             @ '' directory: contracts/MyJetton.fc, contracts/my_jetton.tact. Filenames should be unique, ignoring case, underscores, and extensions.''\<rparr>,
          \<lparr>type = NamingConsistency, file' = ''contracts/my_jetton.tact'',
           message = ''Duplicate filename detected in '' @ quoted ''contracts''
             @ '' directory: contracts/MyJetton.fc, contracts/my_jetton.tact. Filenames should be unique, ignoring case, underscores, and extensions.''\<rparr>]"
    by code_simp
  note inst = lintDuplicateContractNames_groups [OF plain, of "[]" jettonFs "[]"
      "\<lparr>type = NamingConsistency, file' = [], message = []\<rparr>"]
  from inst g have r: "lintDuplicateContractNames jettonFs [''p'']
     = [\<lparr>type = NamingConsistency, file' = ''contracts/MyJetton.fc'',
           message = ''Duplicate filename detected in '' @ quoted ''contracts''
             @ '' directory: contracts/MyJetton.fc, contracts/my_jetton.tact. Filenames should be unique, ignoring case, underscores, and extensions.''\<rparr>,
          \<lparr>type = NamingConsistency, file' = ''contracts/my_jetton.tact'',
           message = ''Duplicate filename detected in '' @ quoted ''contracts''
             @ '' directory: contracts/MyJetton.fc, contracts/my_jetton.tact. Filenames should be unique, ignoring case, underscores, and extensions.''\<rparr>]"
    by (elim conjE) (rule trans)
  show ?thesis
    using plain jetton_eval r by simp
qed

text \<open>
  The claim as first stated speaks of each file under the \<^verbatim>\<open>contracts\<close> tree. Here two files below
  \<^verbatim>\<open>contracts\<close> share the key \<^verbatim>\<open>token\<close>, one of them below the directory \<^verbatim>\<open>.backup\<close>, which the
  scan does not enter: the detector returns no diagnostic.
\<close>

definition hiddenDirFs :: filesystem where
  "hiddenDirFs = [([''p''], Directory), ([''p'', ''contracts''], Directory),
     ([''p'', ''contracts'', ''token.fc''], File []),
     ([''p'', ''contracts'', ''.backup''], Directory),
     ([''p'', ''contracts'', ''.backup'', ''token.fc''], File [])]"

theorem lintDuplicateContractNames_misses_hidden_directory:
  "isFile hiddenDirFs [''p'', ''contracts'', ''token.fc'']
   \<and> isFile hiddenDirFs [''p'', ''contracts'', ''.backup'', ''token.fc'']
   \<and> normalizeContractName [''p'', ''contracts'', ''token.fc''] = ''token''
   \<and> normalizeContractName [''p'', ''contracts'', ''.backup'', ''token.fc''] = ''token''
   \<and> lintDuplicateContractNames hiddenDirFs [''p''] = []"
  by code_simp

definition nodeModulesFs :: filesystem where
  "nodeModulesFs = [([''p''], Directory), ([''p'', ''contracts''], Directory),
     ([''p'', ''contracts'', ''token.fc''], File []),
     ([''p'', ''contracts'', ''node_modules''], Directory),
     ([''p'', ''contracts'', ''node_modules'', ''lib''], Directory),
     ([''p'', ''contracts'', ''node_modules'', ''lib'', ''Token.fc''], File [])]"

text \<open>
  Claim C3 says that every checker leaves out the files below a \<^verbatim>\<open>node_modules\<close> directory. The
  duplicate-name detector passes no \<^verbatim>\<open>ignore\<close> option to its glob call, unlike the other scans:
  a file below \<^verbatim>\<open>contracts/node_modules\<close> gets a key and a diagnostic.
\<close>

theorem lintDuplicateContractNames_scans_node_modules:
  "map file' (lintDuplicateContractNames nodeModulesFs [''p''])
     = [''contracts/token.fc'', ''contracts/node_modules/lib/Token.fc'']"
  by code_simp

section \<open>Contract naming check (src/checks/namingConsistency.ts)\<close>

definition DEFAULT_DIRS :: "string list" where
  "DEFAULT_DIRS = [''contracts'', ''wrappers'', ''scripts'', ''tests'']"

definition CONTRACT_EXTENSIONS :: "string list" where
  "CONTRACT_EXTENSIONS = [''.tact'', ''.fc'', ''.func'']"

definition TS_EXTENSIONS :: "string list" where
  "TS_EXTENSIONS = [''.ts'']"

definition TEST_EXTENSIONS :: "string list" where
  "TEST_EXTENSIONS = [''.spec.ts'', ''.test.ts'']"

record FileInfo =
  filePath :: string
  dir :: string
  baseName :: string
  normalizedBaseName :: string
  isContract :: bool
  isTs :: bool
  isTest :: bool

definition basenameExt :: "path \<Rightarrow> string \<Rightarrow> string" where
  "basenameExt p ext = stripExt (basename p) ext"

text \<open>\<^verbatim>\<open>getNormalizedBaseName\<close> of src/utils/normalizeName.ts.\<close>

definition getNormalizedBaseName :: "path \<Rightarrow> string" where
  "getNormalizedBaseName filePath' =
     (let base = basenameExt filePath' (extname (basename filePath')) in
      if suffix ''.spec'' base \<or> suffix ''.test'' base
      then normalizeToSnakeCase (take (length base - 5) base)
      else normalizeToSnakeCase base)"

lemma getNormalizedBaseName_plain:
  assumes "\<not> suffix ''.spec'' (basenameExt p (extname (basename p)))"
    and "\<not> suffix ''.test'' (basenameExt p (extname (basename p)))"
  shows "getNormalizedBaseName p = normalizeToSnakeCase (basenameExt p (extname (basename p)))"
  using assms by (simp add: getNormalizedBaseName_def Let_def)

text \<open>
  \<open>scanFile\<close> is the body of the loop of \<^verbatim>\<open>findFiles\<close>: the empty list where the source goes on
  to the next file. A target directory is the string the caller gave. The project path and the
  target directories are plain: \<open>targetPattern\<close> takes their segments as literal segments.
\<close>

definition dirnameStr :: "string list \<Rightarrow> string" where
  "dirnameStr rel = (if length rel \<le> 1 then ''.'' else relStr (butlast rel))"

definition targetPattern :: "path \<Rightarrow> string \<Rightarrow> globpat" where
  "targetPattern projectRoot targetDir =
     map Lit (joinRel projectRoot targetDir)
       @ [GlobStar, StarSuffix (CONTRACT_EXTENSIONS @ TS_EXTENSIONS @ TEST_EXTENSIONS)]"

definition scanFile :: "path \<Rightarrow> string list \<Rightarrow> path \<Rightarrow> FileInfo list" where
  "scanFile projectRoot targetDirs absoluteFilePath =
     (let relativeFilePath = relStr (relative projectRoot absoluteFilePath) in
      if prefix ''..'' relativeFilePath then []
      else
        (let ext = extname (basename absoluteFilePath) in
         if suffix ''.d.ts'' (absStr absoluteFilePath) then []
         else
           (let isTest' = list_ex (\<lambda>testExt. suffix testExt (absStr absoluteFilePath)) TEST_EXTENSIONS;
                relativeDirPathOfFile = dirnameStr (relative projectRoot absoluteFilePath);
                isInTargetDir = list_ex (\<lambda>targetDir. relativeDirPathOfFile = targetDir
                                    \<or> prefix (targetDir @ ''/'') relativeDirPathOfFile) targetDirs
            in if \<not> isInTargetDir then []
               else [\<lparr>filePath = relativeFilePath,
                      dir = basename (dirname absoluteFilePath),
                      baseName = basenameExt absoluteFilePath ext,
                      normalizedBaseName = getNormalizedBaseName absoluteFilePath,
                      isContract = (ext \<in> set CONTRACT_EXTENSIONS),
                      isTs = (\<not> isTest' \<and> ext \<in> set TS_EXTENSIONS),
                      isTest = isTest'\<rparr>])))"

definition findFiles :: "filesystem \<Rightarrow> path \<Rightarrow> string list \<Rightarrow> FileInfo list" where
  "findFiles fs projectRoot targetDirs =
     (let patterns = map (targetPattern projectRoot) targetDirs;
          globResults = glob fs patterns \<lparr>nodir = True, ignore = [IGNORE_NODE_MODULES]\<rparr>;
          files = concat (map (scanFile projectRoot targetDirs) globResults)
      in map snd (foldl (\<lambda>m f. mapSet m (filePath f) f) [] files))"

definition namingDiagnostic :: "FileInfo \<Rightarrow> LinterError" where
  "namingDiagnostic contract =
     (let expectedFullName = normalizedBaseName contract @ extnameStr (filePath contract);
          actualFullName = baseName contract @ extnameStr (filePath contract)
      in \<lparr>type = NamingConsistency, file' = filePath contract,
          message = ''Contract file should use snake_case. Expected: '' @ quoted expectedFullName
            @ '', Actual: '' @ quoted actualFullName @ ''.''\<rparr>)"

definition performConsistencyCheck :: "FileInfo list \<Rightarrow> LinterError list" where
  "performConsistencyCheck contractFiles =
     concat (map (\<lambda>contract. if baseName contract \<noteq> normalizedBaseName contract
                              then [namingDiagnostic contract] else [])
               contractFiles)"

definition checkNamingConsistency :: "filesystem \<Rightarrow> path \<Rightarrow> string list \<Rightarrow> LinterError list" where
  "checkNamingConsistency fs projectRoot targetDirs =
     (let files = findFiles fs projectRoot targetDirs;
          contractFilesFound = filter isContract files
      in if length contractFilesFound = 0 then []
         else performConsistencyCheck contractFilesFound)"

lemma dedupe_keys:
  "distinct (map fst (foldl (\<lambda>m f. mapSet m (key f) f) [] xs))
   \<and> (\<forall>(k, v) \<in> set (foldl (\<lambda>m f. mapSet m (key f) f) [] xs). key v = k \<and> v \<in> set xs)"
proof (induction xs rule: rev_induct)
  case Nil
  then show ?case by simp
next
  case (snoc x xs)
  let ?m = "foldl (\<lambda>m f. mapSet m (key f) f) [] xs"
  have d: "distinct (map fst (mapSet ?m (key x) x))"
    using snoc by (auto simp: map_fst_mapSet)
  have "\<forall>(k, v) \<in> set (mapSet ?m (key x) x). key v = k \<and> v \<in> set (xs @ [x])"
    using snoc set_mapSet [of ?m "key x" x] by fastforce
  then show ?case using d by simp
qed

lemma distinct_findFiles: "distinct (map filePath (findFiles fs projectRoot targetDirs))"
proof -
  let ?files = "concat (map (scanFile projectRoot targetDirs)
      (glob fs (map (targetPattern projectRoot) targetDirs) \<lparr>nodir = True, ignore = [IGNORE_NODE_MODULES]\<rparr>))"
  let ?m = "foldl (\<lambda>m f. mapSet m (filePath f) f) [] ?files"
  have eq: "map (filePath \<circ> snd) ?m = map fst ?m"
    using dedupe_keys [of filePath ?files] by (intro map_cong) auto
  have "distinct (map fst ?m)"
    using dedupe_keys [of filePath ?files] by blast
  then have "distinct (map (filePath \<circ> snd) ?m)"
    unfolding eq .
  then show ?thesis
    by (simp add: findFiles_def Let_def)
qed

lemma findFiles_scanned:
  assumes "c \<in> set (findFiles fs projectRoot targetDirs)"
  shows "\<exists>p \<in> set (glob fs (map (targetPattern projectRoot) targetDirs)
                    \<lparr>nodir = True, ignore = [IGNORE_NODE_MODULES]\<rparr>).
           c \<in> set (scanFile projectRoot targetDirs p)"
proof -
  let ?files = "concat (map (scanFile projectRoot targetDirs)
      (glob fs (map (targetPattern projectRoot) targetDirs) \<lparr>nodir = True, ignore = [IGNORE_NODE_MODULES]\<rparr>))"
  from assms obtain k where "(k, c) \<in> set (foldl (\<lambda>m f. mapSet m (filePath f) f) [] ?files)"
    by (auto simp: findFiles_def Let_def)
  then have "c \<in> set ?files"
    using dedupe_keys [of filePath ?files] by auto
  then show ?thesis by auto
qed

lemma scanFile_fields:
  assumes "c \<in> set (scanFile projectRoot targetDirs p)"
  shows "filePath c = relStr (relative projectRoot p)
       \<and> baseName c = basenameExt p (extname (basename p))
       \<and> normalizedBaseName c = getNormalizedBaseName p
       \<and> isContract c = (extname (basename p) \<in> set CONTRACT_EXTENSIONS)"
  using assms by (auto simp: scanFile_def Let_def split: if_splits)

lemma count_conditional:
  assumes "distinct (map filePath cs)" and "c \<in> set cs"
    and "\<And>x. file' (d x) = filePath x"
  shows "length (filter (\<lambda>e. file' e = filePath c)
           (concat (map (\<lambda>x. if P x then [d x] else []) cs))) = (if P c then 1 else 0)"
  using assms(1,2)
proof (induction cs)
  case Nil
  then show ?case by simp
next
  case (Cons x cs)
  show ?case
  proof (cases "x = c")
    case True
    then have "filePath c \<notin> filePath ` set cs"
      using Cons.prems by simp
    then have "\<forall>y\<in>set cs. filePath y \<noteq> filePath c"
      by (metis image_eqI)
    then have "filter (\<lambda>e. file' e = filePath c)
                 (concat (map (\<lambda>x. if P x then [d x] else []) cs)) = []"
      by (auto simp: filter_empty_conv assms(3))
    then show ?thesis using True by (simp add: assms(3))
  next
    case False
    then have "c \<in> set cs" and "filePath x \<noteq> filePath c"
      using Cons.prems by auto
    then show ?thesis using Cons by (simp add: assms(3))
  qed
qed

lemma checkNamingConsistency_eq:
  "checkNamingConsistency fs projectRoot targetDirs
     = performConsistencyCheck (filter isContract (findFiles fs projectRoot targetDirs))"
  by (simp add: checkNamingConsistency_def Let_def performConsistencyCheck_def)

text \<open>The files that \<^verbatim>\<open>findFiles\<close> and the wrapper scan return are not below \<^verbatim>\<open>node_modules\<close>.\<close>

lemma findFiles_skips_node_modules:
  assumes "c \<in> set (findFiles fs projectRoot targetDirs)"
  shows "\<exists>p. ''node_modules'' \<notin> set p \<and> c \<in> set (scanFile projectRoot targetDirs p)"
proof -
  obtain p where p: "p \<in> set (glob fs (map (targetPattern projectRoot) targetDirs)
                      \<lparr>nodir = True, ignore = [IGNORE_NODE_MODULES]\<rparr>)"
    and c: "c \<in> set (scanFile projectRoot targetDirs p)"
    using findFiles_scanned [OF assms] by blast
  have "''node_modules'' \<notin> set p"
    by (rule glob_ignores_node_modules [OF _ p]) simp
  then show ?thesis using c by blast
qed

lemma checkWrapperNaming_skips_node_modules:
  assumes "p \<in> set (glob fs patterns \<lparr>nodir = True, ignore = [IGNORE_NODE_MODULES, IGNORE_DECLARATIONS]\<rparr>)"
  shows "''node_modules'' \<notin> set p"
  by (rule glob_ignores_node_modules [OF _ assms]) simp

definition namingFs :: "string \<Rightarrow> filesystem" where
  "namingFs name = [([''p''], Directory), ([''p'', ''contracts''], Directory),
     ([''p'', ''contracts'', name], File []),
     ([''p'', ''wrappers''], Directory),
     ([''p'', ''wrappers'', ''MyContract.ts''], File [])]"

lemma naming_MyContract:
  "checkNamingConsistency (namingFs ''MyContract.fc'') [''p''] DEFAULT_DIRS
     = [\<lparr>type = NamingConsistency, file' = ''contracts/MyContract.fc'',
         message = ''Contract file should use snake_case. Expected: '' @ quoted ''my_contract.fc''
           @ '', Actual: '' @ quoted ''MyContract.fc'' @ ''.''\<rparr>]"
  by code_simp

lemma naming_my_contract:
  "checkNamingConsistency (namingFs ''my_contract.fc'') [''p''] DEFAULT_DIRS = []"
  by code_simp

text \<open>
  What the check does for every contract-extension file that \<^verbatim>\<open>findFiles\<close> returns: it emits
  exactly one diagnostic, of type NamingConsistency, when the stem of the file differs from
  \<open>normalizedBaseName\<close>, and none when they are equal. The expected name of the diagnostic is
  \<open>normalizedBaseName\<close> followed by the extension of the file. \<open>normalizedBaseName\<close> is the result
  of \<^verbatim>\<open>getNormalizedBaseName\<close>: the snake case of the stem, after a trailing \<^verbatim>\<open>.spec\<close> or \<^verbatim>\<open>.test\<close>
  of the stem is dropped, whatever the extension. \<^verbatim>\<open>contracts/MyContract.fc\<close> yields exactly one
  diagnostic, expecting \<^verbatim>\<open>my_contract.fc\<close>, and \<^verbatim>\<open>contracts/my_contract.fc\<close> yields none.
\<close>

lemma checkNamingConsistency_per_file:
  assumes "c \<in> set (findFiles fs projectRoot targetDirs)" and "isContract c"
  shows "length (filter (\<lambda>e. file' e = filePath c) (checkNamingConsistency fs projectRoot targetDirs))
           = (if baseName c = normalizedBaseName c then 0 else 1)
       \<and> (if baseName c = normalizedBaseName c then True
           else \<lparr>type = NamingConsistency, file' = filePath c,
                 message = ''Contract file should use snake_case. Expected: ''
                   @ quoted (normalizedBaseName c @ extnameStr (filePath c))
                   @ '', Actual: '' @ quoted (baseName c @ extnameStr (filePath c)) @ ''.''\<rparr>
                \<in> set (checkNamingConsistency fs projectRoot targetDirs))
       \<and> (\<exists>p. filePath c = relStr (relative projectRoot p)
              \<and> baseName c = basenameExt p (extname (basename p))
              \<and> normalizedBaseName c = getNormalizedBaseName p
              \<and> extname (basename p) \<in> set CONTRACT_EXTENSIONS)
       \<and> normalizedBaseName c
           = (if suffix ''.spec'' (baseName c) \<or> suffix ''.test'' (baseName c)
              then normalizeToSnakeCase (take (length (baseName c) - 5) (baseName c))
              else normalizeToSnakeCase (baseName c))
       \<and> checkNamingConsistency (namingFs ''MyContract.fc'') [''p''] DEFAULT_DIRS
           = [\<lparr>type = NamingConsistency, file' = ''contracts/MyContract.fc'',
               message = ''Contract file should use snake_case. Expected: '' @ quoted ''my_contract.fc''
                 @ '', Actual: '' @ quoted ''MyContract.fc'' @ ''.''\<rparr>]
       \<and> checkNamingConsistency (namingFs ''my_contract.fc'') [''p''] DEFAULT_DIRS = []"
proof -
  let ?cs = "filter isContract (findFiles fs projectRoot targetDirs)"
  have dist: "distinct (map filePath ?cs)"
    using distinct_findFiles [of fs projectRoot targetDirs] by (simp add: distinct_map_filter)
  have mem: "c \<in> set ?cs" using assms by simp
  have cnt: "length (filter (\<lambda>e. file' e = filePath c) (checkNamingConsistency fs projectRoot targetDirs))
           = (if baseName c \<noteq> normalizedBaseName c then 1 else 0)"
    unfolding checkNamingConsistency_eq performConsistencyCheck_def
    by (rule count_conditional [OF dist mem]) (simp add: namingDiagnostic_def Let_def)
  have diag: "baseName c \<noteq> normalizedBaseName c \<Longrightarrow>
                namingDiagnostic c \<in> set (checkNamingConsistency fs projectRoot targetDirs)"
    unfolding checkNamingConsistency_eq performConsistencyCheck_def using mem by auto
  obtain p where "c \<in> set (scanFile projectRoot targetDirs p)"
    using findFiles_scanned [OF assms(1)] by blast
  then have fields: "\<exists>p. filePath c = relStr (relative projectRoot p)
              \<and> baseName c = basenameExt p (extname (basename p))
              \<and> normalizedBaseName c = getNormalizedBaseName p
              \<and> extname (basename p) \<in> set CONTRACT_EXTENSIONS"
    using scanFile_fields assms(2) by blast
  from fields have norm: "normalizedBaseName c
           = (if suffix ''.spec'' (baseName c) \<or> suffix ''.test'' (baseName c)
              then normalizeToSnakeCase (take (length (baseName c) - 5) (baseName c))
              else normalizeToSnakeCase (baseName c))"
    by (auto simp: getNormalizedBaseName_def Let_def)
  show ?thesis
    using cnt diag fields norm naming_MyContract naming_my_contract
    by (simp add: namingDiagnostic_def Let_def)
qed

text \<open>
  Claim C8 says that a contract file is reported when its stem differs from the snake case of
  the stem, and is not reported when the two are equal. The stem of \<^verbatim>\<open>contracts/foo.spec.fc\<close> is
  \<^verbatim>\<open>foo.spec\<close>, which is its own snake case. \<^verbatim>\<open>getNormalizedBaseName\<close> drops the \<^verbatim>\<open>.spec\<close> for every
  extension, where its comment speaks of the \<^verbatim>\<open>.spec.ts\<close> and \<^verbatim>\<open>.test.ts\<close> files: the contract
  file is reported, and the name expected of it is \<^verbatim>\<open>foo.fc\<close>.
\<close>

theorem checkNamingConsistency_reports_spec_contract:
  "filter isContract (findFiles (namingFs ''foo.spec.fc'') [''p''] DEFAULT_DIRS)
       = [\<lparr>filePath = ''contracts/foo.spec.fc'', dir = ''contracts'', baseName = ''foo.spec'',
           normalizedBaseName = ''foo'', isContract = True, isTs = False, isTest = False\<rparr>]
   \<and> normalizeToSnakeCase ''foo.spec'' = ''foo.spec''
   \<and> getNormalizedBaseName [''p'', ''contracts'', ''foo.spec.fc''] = ''foo''
   \<and> checkNamingConsistency (namingFs ''foo.spec.fc'') [''p''] DEFAULT_DIRS
       = [\<lparr>type = NamingConsistency, file' = ''contracts/foo.spec.fc'',
           message = ''Contract file should use snake_case. Expected: '' @ quoted ''foo.fc''
             @ '', Actual: '' @ quoted ''foo.spec.fc'' @ ''.''\<rparr>]"
  by code_simp

section \<open>Wrapper naming rule (src/rules/wrapperNamingRule.ts)\<close>

text \<open>
  \<open>PASCAL_CASE_REGEX\<close> is the test of \<^verbatim>\<open>/^[A-Z][a-zA-Z0-9]*$/\<close>. \<open>EXPORTED_CLASS_REGEX\<close> is the first
  group of the first match of \<^verbatim>\<open>/export\s+(?:abstract\s+)?class\s+([A-Za-z0-9_]+)/\<close>:
  \<open>exportedClassAt\<close> matches at the start of its argument, where the greedy quantifiers leave
  nothing to backtracking.

  \<^verbatim>\<open>\s\<close> is the white space of a JavaScript regular expression: the six ASCII characters and
  the characters U+00A0, U+1680, U+2000 to U+200A, U+2028, U+2029, U+202F, U+205F, U+3000 and
  U+FEFF. The text of a file is its UTF-8 bytes, so \<open>whiteSpace\<close> lists the encodings, of one to
  three bytes; \<open>spaceLength\<close> is the number of bytes of the white-space character at the start of
  a text, and 0 when the text starts with none.
\<close>

definition isAlnum :: "char \<Rightarrow> bool" where
  "isAlnum c \<longleftrightarrow> isLower c \<or> isUpper c \<or> isDigit c"

definition PASCAL_CASE_REGEX :: "string \<Rightarrow> bool" where
  "PASCAL_CASE_REGEX s = (case s of [] \<Rightarrow> False | c # cs \<Rightarrow> isUpper c \<and> list_all isAlnum cs)"

definition whiteSpace :: "string list" where
  "whiteSpace =
     [[CHR 0x09], [CHR 0x0A], [CHR 0x0B], [CHR 0x0C], [CHR 0x0D], [CHR '' ''],
      [CHR 0xC2, CHR 0xA0],
      [CHR 0xE1, CHR 0x9A, CHR 0x80],
      [CHR 0xE2, CHR 0x80, CHR 0x80], [CHR 0xE2, CHR 0x80, CHR 0x81], [CHR 0xE2, CHR 0x80, CHR 0x82],
      [CHR 0xE2, CHR 0x80, CHR 0x83], [CHR 0xE2, CHR 0x80, CHR 0x84], [CHR 0xE2, CHR 0x80, CHR 0x85],
      [CHR 0xE2, CHR 0x80, CHR 0x86], [CHR 0xE2, CHR 0x80, CHR 0x87], [CHR 0xE2, CHR 0x80, CHR 0x88],
      [CHR 0xE2, CHR 0x80, CHR 0x89], [CHR 0xE2, CHR 0x80, CHR 0x8A],
      [CHR 0xE2, CHR 0x80, CHR 0xA8], [CHR 0xE2, CHR 0x80, CHR 0xA9], [CHR 0xE2, CHR 0x80, CHR 0xAF],
      [CHR 0xE2, CHR 0x81, CHR 0x9F],
      [CHR 0xE3, CHR 0x80, CHR 0x80],
      [CHR 0xEF, CHR 0xBB, CHR 0xBF]]"

definition spaceLength :: "string \<Rightarrow> nat" where
  "spaceLength s = (case find (\<lambda>w. prefix w s) whiteSpace of None \<Rightarrow> 0 | Some w \<Rightarrow> length w)"

lemma spaceLength_drop: "0 < spaceLength s \<Longrightarrow> length s - spaceLength s < length s"
proof -
  assume a: "0 < spaceLength s"
  have "spaceLength [] = 0"
    by (simp add: spaceLength_def whiteSpace_def)
  then have "s \<noteq> []" using a by auto
  then show ?thesis using a by simp
qed

function dropSpaces :: "string \<Rightarrow> string" where
  "dropSpaces s = (if spaceLength s = 0 then s else dropSpaces (drop (spaceLength s) s))"
  by pat_completeness auto

termination
  by (relation "measure length") (simp_all add: spaceLength_drop)

declare dropSpaces.simps [simp del]

definition isWordChar :: "char \<Rightarrow> bool" where
  "isWordChar c \<longleftrightarrow> isAlnum c \<or> c = CHR ''_''"

fun stripPrefix :: "string \<Rightarrow> string \<Rightarrow> string option" where
  "stripPrefix [] s = Some s"
| "stripPrefix (p # ps) [] = None"
| "stripPrefix (p # ps) (c # cs) = (if p = c then stripPrefix ps cs else None)"

definition spaces1 :: "string \<Rightarrow> string option" where
  "spaces1 s = (if spaceLength s = 0 then None else Some (dropSpaces s))"

definition exportedClassAt :: "string \<Rightarrow> string option" where
  "exportedClassAt s =
     (case stripPrefix ''export'' s of None \<Rightarrow> None | Some r1 \<Rightarrow>
      (case spaces1 r1 of None \<Rightarrow> None | Some r2 \<Rightarrow>
       (let r3 = (case stripPrefix ''abstract'' r2 of None \<Rightarrow> r2 | Some a \<Rightarrow>
                   (case spaces1 a of None \<Rightarrow> r2 | Some a' \<Rightarrow> a'))
        in case stripPrefix ''class'' r3 of None \<Rightarrow> None | Some r4 \<Rightarrow>
           (case spaces1 r4 of None \<Rightarrow> None | Some r5 \<Rightarrow>
             (if takeWhile isWordChar r5 = [] then None else Some (takeWhile isWordChar r5))))))"

fun EXPORTED_CLASS_REGEX :: "string \<Rightarrow> string option" where
  "EXPORTED_CLASS_REGEX [] = exportedClassAt []"
| "EXPORTED_CLASS_REGEX (c # cs) =
     (case exportedClassAt (c # cs) of Some name \<Rightarrow> Some name | None \<Rightarrow> EXPORTED_CLASS_REGEX cs)"

definition COMPILE_TS_SUFFIX :: string where
  "COMPILE_TS_SUFFIX = ''.compile.ts''"

definition TS_SUFFIX :: string where
  "TS_SUFFIX = ''.ts''"

definition wrapperBaseName :: "string \<Rightarrow> (string \<times> bool) option" where
  "wrapperBaseName fileName =
     (if suffix COMPILE_TS_SUFFIX fileName
      then Some (take (length fileName - length COMPILE_TS_SUFFIX) fileName, True)
      else if suffix TS_SUFFIX fileName
      then Some (take (length fileName - length TS_SUFFIX) fileName, False)
      else None)"

text \<open>\<open>wrapperFileErrors\<close> is the body of the loop over the files of the glob call.\<close>

definition wrapperFileErrors :: "filesystem \<Rightarrow> path \<Rightarrow> path \<Rightarrow> LinterError list" where
  "wrapperFileErrors fs projectRoot fullPath =
     (let relativePath = relStr (relative projectRoot fullPath);
          fileName = basename fullPath
      in case wrapperBaseName fileName of
           None \<Rightarrow> []
         | Some (baseName', isCompileFile) \<Rightarrow>
            if \<not> PASCAL_CASE_REGEX baseName'
            then [\<lparr>type = NamingConsistency, file' = relativePath,
                   message = ''Wrapper file name part '' @ quoted baseName' @ '' in ''
                     @ quoted fileName @ '' should be in PascalCase.''\<rparr>]
            else if \<not> isCompileFile
            then (case readFileSync fs fullPath of
                    Inl readError \<Rightarrow>
                      [\<lparr>type = StructureValidation, file' = relativePath,
                        message = ''Failed to read wrapper file '' @ quoted fileName @ '': '' @ readError\<rparr>]
                  | Inr content \<Rightarrow>
                      (case EXPORTED_CLASS_REGEX content of
                         None \<Rightarrow> []
                       | Some exportedClassName \<Rightarrow>
                           if baseName' \<noteq> exportedClassName
                           then [\<lparr>type = NamingConsistency, file' = relativePath,
                                  message = ''Wrapper filename '' @ quoted fileName @ '' (base ''
                                    @ quoted baseName' @ '') does not match the exported class name ''
                                    @ quoted exportedClassName @ ''.''\<rparr>]
                           else []))
            else [])"

definition checkWrapperNaming :: "filesystem \<Rightarrow> path \<Rightarrow> LinterError list" where
  "checkWrapperNaming fs projectRoot =
     (let wrapperDir = projectRoot @ [''wrappers''];
          files = glob fs [map Lit wrapperDir @ [GlobStar, StarSuffix [''.ts'']]]
                    \<lparr>nodir = True, ignore = [IGNORE_NODE_MODULES, IGNORE_DECLARATIONS]\<rparr>
      in concat (map (\<lambda>fullPath. if \<not> isFile fs fullPath then []
                                  else wrapperFileErrors fs projectRoot fullPath) files))"





text \<open>
  White space outside ASCII separates the keywords as well: a no-break space (U+00A0) after
  \<^verbatim>\<open>export\<close>, a line separator (U+2028) and a byte order mark (U+FEFF) before \<^verbatim>\<open>class\<close>. A byte
  that only starts like a white-space character does not.
\<close>

lemma exported_class_unicode_space:
  "EXPORTED_CLASS_REGEX (''export'' @ [CHR 0xC2, CHR 0xA0] @ ''class Foo {}'') = Some ''Foo''"
  "EXPORTED_CLASS_REGEX (''export'' @ [CHR 0xE2, CHR 0x80, CHR 0xA8, CHR 0xEF, CHR 0xBB, CHR 0xBF]
      @ ''abstract'' @ [CHR 0x09] @ ''class Foo_1 {}'') = Some ''Foo_1''"
  "EXPORTED_CLASS_REGEX (''export'' @ [CHR 0xC2, CHR 0xA1] @ ''class Foo {}'') = None"
  by code_simp+



end
